theory Spec2Isabelle
  imports Main "HOL-Library.Sublist"
begin

section \<open>Strings and the character classes of the regular expressions\<close>

text \<open>
  A JavaScript string is modelled as a \<^typ>\<open>string\<close>: the sequence of its code units, each
  below 256. In that range the class \<^verbatim>\<open>\s\<close> (and what \<^verbatim>\<open>trim\<close> strips) is tab, line feed,
  vertical tab, form feed, carriage return, space and no-break space, and the line
  terminators, which \<^verbatim>\<open>.\<close> does not match without the \<^verbatim>\<open>s\<close> flag, are line feed and
  carriage return.
\<close>

definition is_line_terminator :: "char \<Rightarrow> bool" where
  "is_line_terminator c = (c = CHR 0x0A \<or> c = CHR 0x0D)"

definition is_whitespace :: "char \<Rightarrow> bool" where
  "is_whitespace c =
     (c = CHR 0x09 \<or> c = CHR 0x0A \<or> c = CHR 0x0B \<or> c = CHR 0x0C \<or> c = CHR 0x0D \<or>
      c = CHR 0x20 \<or> c = CHR 0xA0)"

section \<open>Title cleaning\<close>

text \<open>
  \<^verbatim>\<open>cleanTitle\<close> (stock-analysis.ts, lines 88-94) chains four string operations:
  \<^verbatim>\<open>.replace(/\[.*?\]/g, '')\<close>, \<^verbatim>\<open>.replace(/\(.*?\)/g, '')\<close>, \<^verbatim>\<open>.replace(/\s+/g, ' ')\<close>
  and \<^verbatim>\<open>.trim()\<close>.

  \<open>lazy_to cls cs\<close> is the lazy \<^verbatim>\<open>.*?\<close> followed by the closing character, tried on the
  text \<open>cs\<close> after an opening character: at each position the closing character is tried
  first; otherwise \<^verbatim>\<open>.\<close> must consume the character, which it cannot do on a line
  terminator. The result is the text after the match.
\<close>

fun lazy_to :: "char \<Rightarrow> string \<Rightarrow> string option" where
  "lazy_to cls [] = None"
| "lazy_to cls (c # cs) =
     (if c = cls then Some cs
      else if is_line_terminator c then None
      else lazy_to cls cs)"

text \<open>
  The global replacement by the empty string: the scan goes left to right, a match is
  removed and the scan goes on after it; where no match starts, the character is kept.
\<close>

function replace_segments :: "char \<Rightarrow> char \<Rightarrow> string \<Rightarrow> string" where
  "replace_segments opn cls [] = []"
| "replace_segments opn cls (c # cs) =
     (if c = opn
      then (case lazy_to cls cs of
              Some rest \<Rightarrow> replace_segments opn cls rest
            | None \<Rightarrow> c # replace_segments opn cls cs)
      else c # replace_segments opn cls cs)"
  by pat_completeness auto
termination
proof (relation "measure (\<lambda>(opn, cls, s). length s)")
  have shorter: "lazy_to cls cs = Some rest \<Longrightarrow> length rest < Suc (length cs)"
    for cls cs rest
    by (induction cs) (auto split: if_splits)
  show "\<And>opn cls c cs rest. c = opn \<Longrightarrow> lazy_to cls cs = Some rest \<Longrightarrow>
          ((opn, cls, rest), (opn, cls, c # cs)) \<in> measure (\<lambda>(opn, cls, s). length s)"
    using shorter by auto
qed auto

text \<open>\<^verbatim>\<open>.replace(/\s+/g, ' ')\<close>: every maximal run of whitespace becomes one space.\<close>

function collapse_whitespace :: "string \<Rightarrow> string" where
  "collapse_whitespace [] = []"
| "collapse_whitespace (c # cs) =
     (if is_whitespace c
      then CHR '' '' # collapse_whitespace (dropWhile is_whitespace cs)
      else c # collapse_whitespace cs)"
  by pat_completeness auto
termination
  by (relation "measure length") (auto simp: less_Suc_eq_le length_dropWhile_le)

definition trim :: "string \<Rightarrow> string" where
  "trim s = rev (dropWhile is_whitespace (rev (dropWhile is_whitespace s)))"

definition cleanTitle :: "string \<Rightarrow> string" where
  "cleanTitle title =
     trim (collapse_whitespace
       (replace_segments (CHR ''('') (CHR '')'')
         (replace_segments (CHR ''['') (CHR '']'') title)))"

section \<open>Domain extraction and deduplication\<close>

text \<open>
  \<^verbatim>\<open>extractDomain\<close> (lines 83-86) matches \<^verbatim>\<open>/^https?:\/\/([^/?#]+)(?:[/?#]|$)/i\<close> and returns
  the first group, or the url itself when there is no match (or the group is empty).
  \<open>match_ci p s\<close> matches the literal \<open>p\<close> (written in lower case) at the start of \<open>s\<close>
  ignoring case and returns the rest.
\<close>

definition upper_ascii :: "char \<Rightarrow> char" where
  "upper_ascii c =
     (if c = CHR ''h'' then CHR ''H'' else if c = CHR ''t'' then CHR ''T''
      else if c = CHR ''p'' then CHR ''P'' else if c = CHR ''s'' then CHR ''S'' else c)"

fun match_ci :: "string \<Rightarrow> string \<Rightarrow> string option" where
  "match_ci [] s = Some s"
| "match_ci (p # ps) [] = None"
| "match_ci (p # ps) (c # cs) =
     (if c = p \<or> c = upper_ascii p then match_ci ps cs else None)"

definition is_url_delimiter :: "char \<Rightarrow> bool" where
  "is_url_delimiter c = (c = CHR ''/'' \<or> c = CHR ''?'' \<or> c = CHR ''#'')"

text \<open>
  The group \<^verbatim>\<open>([^/?#]+)\<close> is greedy and is followed by a delimiter or the end of the
  text: the longest run of non-delimiters always satisfies that, so it is the group, and
  it must not be empty.
\<close>

definition match_host :: "string \<Rightarrow> string option" where
  "match_host rest =
     (let host = takeWhile (\<lambda>c. \<not> is_url_delimiter c) rest
      in if host = [] then None else Some host)"

definition urlPattern :: "string \<Rightarrow> string option" where
  "urlPattern url =
     (case match_ci ''https://'' url of
        Some rest \<Rightarrow> match_host rest
      | None \<Rightarrow>
          (case match_ci ''http://'' url of
             Some rest \<Rightarrow> match_host rest
           | None \<Rightarrow> None))"

definition extractDomain :: "string \<Rightarrow> string" where
  "extractDomain url =
     (case urlPattern url of
        Some captured \<Rightarrow> if captured = [] then url else captured
      | None \<Rightarrow> url)"

text \<open>
  The items \<^verbatim>\<open>deduplicateByDomainAndUrl\<close> (lines 96-112) filters are any records with a
  \<^verbatim>\<open>url\<close> field. The filter's callback reads and updates the two sets of seen domains
  and seen urls; the model passes them along the list.
\<close>

record url_item =
  url :: string

fun dedup_filter ::
  "string set \<Rightarrow> string set \<Rightarrow> 'a url_item_scheme list \<Rightarrow> 'a url_item_scheme list" where
  "dedup_filter seenDomains seenUrls [] = []"
| "dedup_filter seenDomains seenUrls (item # items) =
     (let domain = extractDomain (url item);
          isNewUrl = url item \<notin> seenUrls;
          isNewDomain = domain \<notin> seenDomains
      in if isNewUrl \<and> isNewDomain
         then item # dedup_filter (insert domain seenDomains) (insert (url item) seenUrls) items
         else dedup_filter seenDomains seenUrls items)"

definition deduplicateByDomainAndUrl :: "'a url_item_scheme list \<Rightarrow> 'a url_item_scheme list" where
  "deduplicateByDomainAndUrl items = dedup_filter {} {} items"

section \<open>JSON values and \<^verbatim>\<open>JSON.parse\<close>\<close>

text \<open>
  The values \<^verbatim>\<open>JSON.parse\<close> returns, and a model of the function after the JSON grammar
  (it is a built-in of the language, not code of the repository). A number keeps its
  numeral as written: its conversion to a double is not modelled. An object keeps its
  members in the order in which their keys first occur in the text, one per key.
\<close>

datatype json =
    JNull
  | JBool bool
  | JNumber string
  | JString string
  | JArray "json list"
  | JObject "(string \<times> json) list"

text \<open>
  What the program can throw: a \<^verbatim>\<open>SyntaxError\<close> (from \<^verbatim>\<open>JSON.parse\<close>), a \<^verbatim>\<open>TypeError\<close>, and
  whatever an external collaborator (the model gateway, the mail transport) rejects
  with, kept with its message. \<open>OutsideModel\<close> is no error of the program: it marks an
  input whose value has a code unit above 255.
\<close>

datatype error = SyntaxError | TypeError | External string | OutsideModel

datatype token =
    TLBrace | TRBrace | TLBracket | TRBracket | TColon | TComma
  | TString string | TNumber string | TTrue | TFalse | TNull

definition is_digit :: "char \<Rightarrow> bool" where
  "is_digit c = (48 \<le> (of_char c :: nat) \<and> (of_char c :: nat) \<le> 57)"

definition is_lower_alpha :: "char \<Rightarrow> bool" where
  "is_lower_alpha c = (97 \<le> (of_char c :: nat) \<and> (of_char c :: nat) \<le> 122)"

definition is_json_space :: "char \<Rightarrow> bool" where
  "is_json_space c = (c = CHR 0x20 \<or> c = CHR 0x09 \<or> c = CHR 0x0A \<or> c = CHR 0x0D)"

definition is_number_char :: "char \<Rightarrow> bool" where
  "is_number_char c =
     (is_digit c \<or> c = CHR ''-'' \<or> c = CHR ''+'' \<or> c = CHR ''.'' \<or> c = CHR ''e'' \<or> c = CHR ''E'')"

definition hex_value :: "char \<Rightarrow> nat option" where
  "hex_value c =
     (let n = (of_char c :: nat)
      in if 48 \<le> n \<and> n \<le> 57 then Some (n - 48)
         else if 97 \<le> n \<and> n \<le> 102 then Some (n - 87)
         else if 65 \<le> n \<and> n \<le> 70 then Some (n - 55)
         else None)"

text \<open>
  The JSON number grammar:
  \<^verbatim>\<open>-? (0 | [1-9][0-9]*) (. [0-9]+)? ([eE] [+-]? [0-9]+)?\<close>.
\<close>

definition int_part :: "string \<Rightarrow> string option" where
  "int_part s =
     (case s of
        [] \<Rightarrow> None
      | c # r \<Rightarrow>
          if c = CHR ''0'' then Some r
          else if is_digit c then Some (dropWhile is_digit r)
          else None)"

definition frac_part :: "string \<Rightarrow> string option" where
  "frac_part s =
     (case s of
        [] \<Rightarrow> Some []
      | c # r \<Rightarrow>
          if c = CHR ''.''
          then (if takeWhile is_digit r = [] then None else Some (dropWhile is_digit r))
          else Some s)"

definition exp_part :: "string \<Rightarrow> bool" where
  "exp_part s =
     (case s of
        [] \<Rightarrow> True
      | c # r \<Rightarrow>
          if c = CHR ''e'' \<or> c = CHR ''E''
          then (let ds = (case r of
                            [] \<Rightarrow> []
                          | d # r' \<Rightarrow> if d = CHR ''+'' \<or> d = CHR ''-'' then r' else r)
                in ds \<noteq> [] \<and> list_all is_digit ds)
          else False)"

definition valid_number :: "string \<Rightarrow> bool" where
  "valid_number s =
     (let unsigned = (case s of [] \<Rightarrow> [] | c # r \<Rightarrow> if c = CHR ''-'' then r else s)
      in case int_part unsigned of
           None \<Rightarrow> False
         | Some r \<Rightarrow> (case frac_part r of None \<Rightarrow> False | Some r' \<Rightarrow> exp_part r'))"

definition word_token :: "string \<Rightarrow> token option" where
  "word_token w =
     (if w = ''true'' then Some TTrue
      else if w = ''false'' then Some TFalse
      else if w = ''null'' then Some TNull
      else None)"

text \<open>
  The lexer reads one character at a time. Its state says what it is inside of: nothing,
  a string (the characters so far, last first), an escape, a \<^verbatim>\<open>\u\<close> escape (the hex digits
  so far), a number or a word. A number is the longest run of number characters, checked
  against the grammar when the run ends; a character that ends a number or a word is then
  read as the start of the next token.
\<close>

datatype lex_state =
    LIdle
  | LString string
  | LEscape string
  | LUnicode string "nat list"
  | LNumber string
  | LWord string

definition idle_step :: "token list \<Rightarrow> char \<Rightarrow> error + lex_state \<times> token list" where
  "idle_step acc c =
     (if is_json_space c then Inr (LIdle, acc)
      else if c = CHR ''{'' then Inr (LIdle, TLBrace # acc)
      else if c = CHR ''}'' then Inr (LIdle, TRBrace # acc)
      else if c = CHR ''['' then Inr (LIdle, TLBracket # acc)
      else if c = CHR '']'' then Inr (LIdle, TRBracket # acc)
      else if c = CHR '':'' then Inr (LIdle, TColon # acc)
      else if c = CHR '','' then Inr (LIdle, TComma # acc)
      else if c = CHR 0x22 then Inr (LString [], acc)
      else if c = CHR ''-'' \<or> is_digit c then Inr (LNumber [c], acc)
      else if is_lower_alpha c then Inr (LWord [c], acc)
      else Inl SyntaxError)"

definition escape_step :: "string \<Rightarrow> token list \<Rightarrow> char \<Rightarrow> error + lex_state \<times> token list" where
  "escape_step s acc c =
     (if c = CHR 0x22 then Inr (LString (CHR 0x22 # s), acc)
      else if c = CHR 0x5C then Inr (LString (CHR 0x5C # s), acc)
      else if c = CHR ''/'' then Inr (LString (CHR ''/'' # s), acc)
      else if c = CHR ''b'' then Inr (LString (CHR 0x08 # s), acc)
      else if c = CHR ''f'' then Inr (LString (CHR 0x0C # s), acc)
      else if c = CHR ''n'' then Inr (LString (CHR 0x0A # s), acc)
      else if c = CHR ''r'' then Inr (LString (CHR 0x0D # s), acc)
      else if c = CHR ''t'' then Inr (LString (CHR 0x09 # s), acc)
      else if c = CHR ''u'' then Inr (LUnicode s [], acc)
      else Inl SyntaxError)"

definition unicode_step ::
  "string \<Rightarrow> nat list \<Rightarrow> token list \<Rightarrow> char \<Rightarrow> error + lex_state \<times> token list" where
  "unicode_step s ds acc c =
     (case hex_value c of
        None \<Rightarrow> Inl SyntaxError
      | Some d \<Rightarrow>
          if length ds < 3 then Inr (LUnicode s (ds @ [d]), acc)
          else (let n = foldl (\<lambda>a b. 16 * a + b) 0 (ds @ [d])
                in if n < 256 then Inr (LString (char_of n # s), acc) else Inl OutsideModel))"

definition lex_step :: "lex_state \<Rightarrow> token list \<Rightarrow> char \<Rightarrow> error + lex_state \<times> token list" where
  "lex_step st acc c =
     (case st of
        LIdle \<Rightarrow> idle_step acc c
      | LString s \<Rightarrow>
          if c = CHR 0x22 then Inr (LIdle, TString (rev s) # acc)
          else if c = CHR 0x5C then Inr (LEscape s, acc)
          else if (of_char c :: nat) < 32 then Inl SyntaxError
          else Inr (LString (c # s), acc)
      | LEscape s \<Rightarrow> escape_step s acc c
      | LUnicode s ds \<Rightarrow> unicode_step s ds acc c
      | LNumber n \<Rightarrow>
          if is_number_char c then Inr (LNumber (c # n), acc)
          else if valid_number (rev n) then idle_step (TNumber (rev n) # acc) c
          else Inl SyntaxError
      | LWord w \<Rightarrow>
          if is_lower_alpha c then Inr (LWord (c # w), acc)
          else (case word_token (rev w) of
                  Some t \<Rightarrow> idle_step (t # acc) c
                | None \<Rightarrow> Inl SyntaxError))"

definition lex_finish :: "lex_state \<Rightarrow> token list \<Rightarrow> error + token list" where
  "lex_finish st acc =
     (case st of
        LIdle \<Rightarrow> Inr (rev acc)
      | LNumber n \<Rightarrow>
          if valid_number (rev n) then Inr (rev (TNumber (rev n) # acc)) else Inl SyntaxError
      | LWord w \<Rightarrow>
          (case word_token (rev w) of
             Some t \<Rightarrow> Inr (rev (t # acc))
           | None \<Rightarrow> Inl SyntaxError)
      | _ \<Rightarrow> Inl SyntaxError)"

fun lex :: "lex_state \<Rightarrow> token list \<Rightarrow> string \<Rightarrow> error + token list" where
  "lex st acc [] = lex_finish st acc"
| "lex st acc (c # cs) =
     (case lex_step st acc c of
        Inl e \<Rightarrow> Inl e
      | Inr (st', acc') \<Rightarrow> lex st' acc' cs)"

text \<open>
  The parser reads one token at a time, with a stack of the arrays and objects it is
  inside of: for an array the elements so far (last first), for an object the members so
  far and the key whose value is being read. Setting a key that is already there
  replaces its value in place, as defining a property twice does.
\<close>

datatype container = InArray "json list" | InObject "(string \<times> json) list" string

datatype parse_state =
    PValue
  | PArrayStart
  | PArrayNext "json list"
  | PObjectStart
  | PObjectKey "(string \<times> json) list"
  | PObjectColon "(string \<times> json) list" string
  | PObjectNext "(string \<times> json) list"
  | PDone json

fun set_member :: "string \<Rightarrow> json \<Rightarrow> (string \<times> json) list \<Rightarrow> (string \<times> json) list" where
  "set_member k v [] = [(k, v)]"
| "set_member k v (m # ms) = (if fst m = k then (k, v) # ms else m # set_member k v ms)"

definition complete :: "json \<Rightarrow> container list \<Rightarrow> parse_state \<times> container list" where
  "complete v stack =
     (case stack of
        [] \<Rightarrow> (PDone v, [])
      | InArray elems # rest \<Rightarrow> (PArrayNext (v # elems), rest)
      | InObject members k # rest \<Rightarrow> (PObjectNext (set_member k v members), rest))"

definition value_step :: "container list \<Rightarrow> token \<Rightarrow> (parse_state \<times> container list) option" where
  "value_step stack t =
     (case t of
        TString s \<Rightarrow> Some (complete (JString s) stack)
      | TNumber n \<Rightarrow> Some (complete (JNumber n) stack)
      | TTrue \<Rightarrow> Some (complete (JBool True) stack)
      | TFalse \<Rightarrow> Some (complete (JBool False) stack)
      | TNull \<Rightarrow> Some (complete JNull stack)
      | TLBracket \<Rightarrow> Some (PArrayStart, stack)
      | TLBrace \<Rightarrow> Some (PObjectStart, stack)
      | _ \<Rightarrow> None)"

definition parse_step ::
  "parse_state \<Rightarrow> container list \<Rightarrow> token \<Rightarrow> (parse_state \<times> container list) option" where
  "parse_step st stack t =
     (case st of
        PValue \<Rightarrow> value_step stack t
      | PArrayStart \<Rightarrow>
          if t = TRBracket then Some (complete (JArray []) stack)
          else value_step (InArray [] # stack) t
      | PArrayNext elems \<Rightarrow>
          if t = TComma then Some (PValue, InArray elems # stack)
          else if t = TRBracket then Some (complete (JArray (rev elems)) stack)
          else None
      | PObjectStart \<Rightarrow>
          (case t of
             TRBrace \<Rightarrow> Some (complete (JObject []) stack)
           | TString k \<Rightarrow> Some (PObjectColon [] k, stack)
           | _ \<Rightarrow> None)
      | PObjectKey members \<Rightarrow>
          (case t of
             TString k \<Rightarrow> Some (PObjectColon members k, stack)
           | _ \<Rightarrow> None)
      | PObjectColon members k \<Rightarrow>
          if t = TColon then Some (PValue, InObject members k # stack) else None
      | PObjectNext members \<Rightarrow>
          if t = TComma then Some (PObjectKey members, stack)
          else if t = TRBrace then Some (complete (JObject members) stack)
          else None
      | PDone v \<Rightarrow> None)"

fun parse_tokens :: "parse_state \<Rightarrow> container list \<Rightarrow> token list \<Rightarrow> error + json" where
  "parse_tokens st stack [] = (case st of PDone v \<Rightarrow> Inr v | _ \<Rightarrow> Inl SyntaxError)"
| "parse_tokens st stack (t # ts) =
     (case parse_step st stack t of
        None \<Rightarrow> Inl SyntaxError
      | Some (st', stack') \<Rightarrow> parse_tokens st' stack' ts)"

definition JSON_parse :: "string \<Rightarrow> error + json" where
  "JSON_parse text =
     (case lex LIdle [] text of
        Inl e \<Rightarrow> Inl e
      | Inr tokens \<Rightarrow> parse_tokens PValue [] tokens)"

section \<open>The outside world\<close>

text \<open>
  What the program does to the outside is recorded as a trace of events, in order: a call
  of the agent with its prompt, a pause with its length in milliseconds, the creation of
  the mail transport with the credentials, and a send with the message.
\<close>

record mail_options =
  mail_from :: string
  mail_to :: "string option"
  mail_subject :: string
  mail_text :: string

datatype event =
    AgentCall string
  | Pause nat
  | CreateTransport string string
  | SendMail mail_options

text \<open>
  The collaborators the program calls are parameters of the model:
  \<^item> \<open>env\<close> is \<^verbatim>\<open>process.env\<close>;
  \<^item> \<open>generate n prompt\<close> is the full text the agent call streams for \<open>prompt\<close> when
    \<open>n\<close> agent calls were made before it in this run, or the error it rejects with;
  \<^item> \<open>deliver\<close> is \<^verbatim>\<open>transporter.sendMail\<close>: the message id, or the error it rejects with;
  \<^item> \<open>ist_time\<close> and \<open>iso_time\<close> are the clock, formatted as \<^verbatim>\<open>getCurrentISTTime\<close> and
    \<^verbatim>\<open>new Date().toISOString()\<close> format it, read after the events so far;
  \<^item> \<open>number_text\<close> and \<open>number_is_zero\<close> are the language's conversion of a number (given
    by its numeral) to a string and its test for zero;
  \<^item> \<open>search n query options\<close> is \<^verbatim>\<open>exa.searchAndContents\<close> for the query at index \<open>n\<close>
    of a web search: the raw results, or the error it rejects with.
\<close>

datatype topic = News | Finance | General

record search_options =
  numResults :: int
  category :: string
  includeDomains :: "string list option"
  excludeDomains :: "string list option"

record raw_result =
  raw_url :: string
  raw_title :: "string option"
  raw_text :: "string option"
  raw_publishedDate :: "string option"
  raw_author :: "string option"

record world =
  env :: "string \<rightharpoonup> string"
  generate :: "nat \<Rightarrow> string \<Rightarrow> error + string"
  deliver :: "mail_options \<Rightarrow> error + string"
  ist_time :: "event list \<Rightarrow> string"
  iso_time :: "event list \<Rightarrow> string"
  number_text :: "string \<Rightarrow> string"
  number_is_zero :: "string \<Rightarrow> bool"
  search :: "nat \<Rightarrow> string \<Rightarrow> search_options \<Rightarrow> error + raw_result list"

text \<open>\<^verbatim>\<open>!process.env.X\<close>: the variable is unset or the empty string.\<close>

definition env_missing :: "world \<Rightarrow> string \<Rightarrow> bool" where
  "env_missing w name = (case env w name of None \<Rightarrow> True | Some v \<Rightarrow> v = [])"

definition getCurrentISTTime :: "world \<Rightarrow> event list \<Rightarrow> string" where
  "getCurrentISTTime w trace = ist_time w trace"

section \<open>The web search tool\<close>

text \<open>
  \<^verbatim>\<open>exaWebSearch\<close> (lines 114-209). A result keeps \<^verbatim>\<open>url\<close>, the cleaned title, the first 1000
  characters of the text, the publication date (news only) and the author. The numbers of
  \<^verbatim>\<open>maxResults\<close> are integers here. \<^verbatim>\<open>a || b\<close> takes \<open>b\<close> when \<open>a\<close> is undefined, 0 or the
  empty string. The input schema admits the topics \<^verbatim>\<open>news\<close> and \<^verbatim>\<open>finance\<close>; \<open>General\<close> is the
  default of a call with no topic. The tool returns \<^verbatim>\<open>{ searches: [...] }\<close>, here the list
  itself, each entry with its \<^verbatim>\<open>query\<close> and its \<^verbatim>\<open>results\<close> (the field \<open>query_results\<close>). The
  construction of the search client from \<^verbatim>\<open>EXA_API_KEY\<close> is not modelled.
\<close>

record search_result = url_item +
  title :: string
  content :: string
  published_date :: "string option"
  author :: "string option"

record query_result =
  query :: string
  query_results :: "search_result list"

definition nth_opt :: "'a list \<Rightarrow> nat \<Rightarrow> 'a option" where
  "nth_opt xs i = (if i < length xs then Some (xs ! i) else None)"

definition or_else :: "'a option \<Rightarrow> 'a option \<Rightarrow> 'a option" where
  "or_else a b = (case a of Some v \<Rightarrow> Some v | None \<Rightarrow> b)"

definition truthy_number :: "int option \<Rightarrow> int option" where
  "truthy_number n = (case n of Some v \<Rightarrow> if v = 0 then None else Some v | None \<Rightarrow> None)"

definition truthy_string :: "string option \<Rightarrow> string option" where
  "truthy_string s = (case s of Some v \<Rightarrow> if v = [] then None else Some v | None \<Rightarrow> None)"

definition currentTopic :: "topic list \<Rightarrow> nat \<Rightarrow> topic" where
  "currentTopic topics index =
     (case or_else (nth_opt topics index) (nth_opt topics 0) of
        Some t \<Rightarrow> t
      | None \<Rightarrow> General)"

definition currentMaxResults :: "int list \<Rightarrow> nat \<Rightarrow> int" where
  "currentMaxResults maxResults index =
     (case or_else (truthy_number (nth_opt maxResults index))
                   (truthy_number (nth_opt maxResults 0)) of
        Some n \<Rightarrow> n
      | None \<Rightarrow> 10)"

definition searchOptions ::
  "topic \<Rightarrow> int \<Rightarrow> string list \<Rightarrow> string list \<Rightarrow> search_options" where
  "searchOptions tp mx include_domains exclude_domains =
     \<lparr> numResults = (if mx < 10 then 10 else mx),
       category = (if tp = Finance then ''financial report''
                   else if tp = News then ''news'' else []),
       includeDomains =
         (if include_domains \<noteq> [] then Some (map extractDomain include_domains) else None),
       excludeDomains =
         (if include_domains \<noteq> [] then None
          else if exclude_domains \<noteq> [] then Some (map extractDomain exclude_domains)
          else None) \<rparr>"

definition to_result :: "topic \<Rightarrow> raw_result \<Rightarrow> search_result" where
  "to_result tp r =
     \<lparr> url = raw_url r,
       title = cleanTitle (case truthy_string (raw_title r) of Some t \<Rightarrow> t | None \<Rightarrow> []),
       content = take 1000 (case truthy_string (raw_text r) of Some t \<Rightarrow> t | None \<Rightarrow> []),
       published_date =
         (if tp = News then truthy_string (raw_publishedDate r) else None),
       author = truthy_string (raw_author r) \<rparr>"

text \<open>
  One query of the call: the search, the mapping of its results and their
  deduplication, all inside the callback of \<^verbatim>\<open>queries.map\<close>; a failed search gives the
  query an empty list.
\<close>

definition search_one ::
  "world \<Rightarrow> int list \<Rightarrow> topic list \<Rightarrow> string list \<Rightarrow> string list \<Rightarrow> nat \<Rightarrow> string \<Rightarrow>
   query_result" where
  "search_one w maxResults topics include_domains exclude_domains index q =
     (let tp = currentTopic topics index;
          mx = currentMaxResults maxResults index
      in case search w index q (searchOptions tp mx include_domains exclude_domains) of
           Inr found \<Rightarrow>
             \<lparr> query = q,
               query_results = deduplicateByDomainAndUrl (map (to_result tp) found) \<rparr>
         | Inl e \<Rightarrow> \<lparr> query = q, query_results = [] \<rparr>)"

definition exaWebSearch ::
  "world \<Rightarrow> string list \<Rightarrow> int list \<Rightarrow> topic list \<Rightarrow> string list \<Rightarrow> string list \<Rightarrow>
   query_result list" where
  "exaWebSearch w queries maxResults topics include_domains exclude_domains =
     map (\<lambda>(index, q). search_one w maxResults topics include_domains exclude_domains index q)
       (enumerate 0 queries)"

section \<open>The notifier\<close>

text \<open>
  \<^verbatim>\<open>sendEmail\<close> (lines 369-438) builds the message text from template literals. A field
  is \<^verbatim>\<open>${result[key] || 'N/A'}\<close>: reading a property of \<^verbatim>\<open>null\<close> throws a \<^verbatim>\<open>TypeError\<close>; a
  value that is not an object has none of the keys (no key looked up is a property of
  strings, numbers, booleans or arrays); a falsy value gives the placeholder; any other
  value is converted to a string.
\<close>

definition digit_char :: "nat \<Rightarrow> char" where
  "digit_char d = char_of (48 + d)"

fun decimal :: "nat \<Rightarrow> string" where
  "decimal n = (if n < 10 then [digit_char n] else decimal (n div 10) @ [digit_char (n mod 10)])"

definition truthy :: "world \<Rightarrow> json \<Rightarrow> bool" where
  "truthy w v =
     (case v of
        JNull \<Rightarrow> False
      | JBool b \<Rightarrow> b
      | JNumber n \<Rightarrow> \<not> number_is_zero w n
      | JString s \<Rightarrow> s \<noteq> []
      | JArray xs \<Rightarrow> True
      | JObject ms \<Rightarrow> True)"

text \<open>
  The conversion to a string of a value that came from \<^verbatim>\<open>JSON.parse\<close>. An array joins its
  elements with commas, \<^verbatim>\<open>null\<close> elements as the empty string. An object is
  \<^verbatim>\<open>[object Object]\<close>, unless it has a member \<^verbatim>\<open>toString\<close> of its own: that member is no
  function, \<^verbatim>\<open>valueOf\<close> gives no primitive, and the conversion throws a \<^verbatim>\<open>TypeError\<close>.
\<close>

fun to_text :: "world \<Rightarrow> json \<Rightarrow> error + string"
  and join_texts :: "world \<Rightarrow> json list \<Rightarrow> error + string" where
  "to_text w JNull = Inr ''null''"
| "to_text w (JBool b) = Inr (if b then ''true'' else ''false'')"
| "to_text w (JNumber n) = Inr (number_text w n)"
| "to_text w (JString s) = Inr s"
| "to_text w (JArray xs) = join_texts w xs"
| "to_text w (JObject ms) =
     (if ''toString'' \<in> fst ` set ms then Inl TypeError else Inr ''[object Object]'')"
| "join_texts w [] = Inr []"
| "join_texts w (x # xs) =
     (case (if x = JNull then Inr [] else to_text w x) of
        Inl e \<Rightarrow> Inl e
      | Inr t \<Rightarrow>
          if xs = [] then Inr t
          else (case join_texts w xs of
                  Inl e \<Rightarrow> Inl e
                | Inr ts \<Rightarrow> Inr (t @ '','' @ ts)))"

definition get_field :: "json \<Rightarrow> string \<Rightarrow> error + json option" where
  "get_field r key =
     (case r of
        JNull \<Rightarrow> Inl TypeError
      | JObject ms \<Rightarrow> Inr (map_of ms key)
      | _ \<Rightarrow> Inr None)"

definition field_text :: "world \<Rightarrow> json \<Rightarrow> string \<Rightarrow> error + string" where
  "field_text w r key =
     (case get_field r key of
        Inl e \<Rightarrow> Inl e
      | Inr None \<Rightarrow> Inr ''N/A''
      | Inr (Some v) \<Rightarrow> if truthy w v then to_text w v else Inr ''N/A'')"

definition field_labels :: "(string \<times> string) list" where
  "field_labels =
     [(''Stock Name: '', ''STOCK NAME''),
      (''Entry Price: '', ''ENTRY PRICE''),
      (''Target Price: '', ''TARGET PRICE''),
      (''Stop Loss: '', ''STOP LOSS''),
      (''Time Horizon: '', ''TIME HORIZON''),
      (''Confidence Level: '', ''CONFIDENCE LEVEL''),
      (''Setup Type: '', ''SETUP TYPE''),
      (''Reasoning: '', ''REASONING''),
      (''Latest News: '', ''LATEST NEWS'')]"

fun field_lines :: "world \<Rightarrow> json \<Rightarrow> (string \<times> string) list \<Rightarrow> error + string" where
  "field_lines w r [] = Inr []"
| "field_lines w r ((label, key) # rest) =
     (case field_text w r key of
        Inl e \<Rightarrow> Inl e
      | Inr t \<Rightarrow>
          (case field_lines w r rest of
             Inl e \<Rightarrow> Inl e
           | Inr ts \<Rightarrow> Inr (label @ t @ ''\<newline>'' @ ts)))"

definition rule_equals :: string where
  "rule_equals = replicate 40 (CHR ''='')"

definition rule_dashes :: string where
  "rule_dashes = replicate 40 (CHR ''-'')"

definition result_block :: "world \<Rightarrow> nat \<Rightarrow> json \<Rightarrow> error + string" where
  "result_block w index r =
     (case field_lines w r field_labels of
        Inl e \<Rightarrow> Inl e
      | Inr field_part \<Rightarrow>
          Inr (''\<newline>Stock Analysis #'' @ decimal (index + 1) @ '':\<newline>'' @
               rule_dashes @ ''\<newline>'' @ field_part @ ''\<newline>'' @ rule_equals @
               ''\<newline>\<newline>''))"

fun result_blocks :: "world \<Rightarrow> nat \<Rightarrow> json list \<Rightarrow> error + string" where
  "result_blocks w index [] = Inr []"
| "result_blocks w index (r # rs) =
     (case result_block w index r of
        Inl e \<Rightarrow> Inl e
      | Inr b \<Rightarrow>
          (case result_blocks w (Suc index) rs of
             Inl e \<Rightarrow> Inl e
           | Inr bs \<Rightarrow> Inr (b @ bs)))"

definition emailBody :: "world \<Rightarrow> string \<Rightarrow> json list \<Rightarrow> error + string" where
  "emailBody w currentTime rs =
     (case result_blocks w 0 rs of
        Inl e \<Rightarrow> Inl e
      | Inr blocks \<Rightarrow>
          Inr (''\<newline>Stock Analysis Results\<newline>Generated on: '' @ currentTime @
               ''\<newline>\<newline>'' @ rule_equals @ ''\<newline>\<newline>'' @ blocks @
               ''\<newline>---\<newline>'' @
               ''This analysis was generated automatically by the Trend Predictor system.'' @
               ''\<newline>'' @
               ''Please review all recommendations carefully before making any investment decisions.'' @
               ''\<newline>''))"

text \<open>A variable of the environment written into a string: \<^verbatim>\<open>undefined\<close> when it is unset.\<close>

definition template_text :: "string option \<Rightarrow> string" where
  "template_text v = (case v of Some s \<Rightarrow> s | None \<Rightarrow> ''undefined'')"

definition env_value :: "world \<Rightarrow> string \<Rightarrow> string" where
  "env_value w name = template_text (env w name)"

text \<open>
  \<open>sendEmail w trace rs\<close> returns the events of the send and its outcome; \<open>trace\<close> is what
  happened before (the clock is read after it). The \<^verbatim>\<open>catch\<close> rethrows, so an error of
  the body or of the transport is the outcome. The recipient is read from the variable
  the source names, \<^verbatim>\<open>GAMIL_SEND_TO_USER\<close>.
\<close>

definition sendEmail :: "world \<Rightarrow> event list \<Rightarrow> json list \<Rightarrow> event list \<times> (error + unit)" where
  "sendEmail w trace rs =
     (if env_missing w ''GMAIL_USER'' \<or> env_missing w ''GMAIL_APP_PASSWORD''
      then ([], Inr ())
      else
        (let transporter = CreateTransport (env_value w ''GMAIL_USER'')
                             (env_value w ''GMAIL_APP_PASSWORD'');
             currentTime = getCurrentISTTime w (trace @ [transporter]);
             emailSubject = ''Stock Analysis Results - '' @ currentTime
         in case emailBody w currentTime rs of
              Inl e \<Rightarrow> ([transporter], Inl e)
            | Inr text \<Rightarrow>
                (let mailOptions =
                       \<lparr> mail_from = env_value w ''GMAIL_USER'',
                         mail_to = env w ''GAMIL_SEND_TO_USER'',
                         mail_subject = emailSubject,
                         mail_text = text \<rparr>
                 in case deliver w mailOptions of
                      Inl e \<Rightarrow> ([transporter, SendMail mailOptions], Inl e)
                    | Inr info \<Rightarrow> ([transporter, SendMail mailOptions], Inr ()))))"

section \<open>The orchestrator\<close>

text \<open>
  \<^verbatim>\<open>finalResult.match(/```json\n(.*)\n```/s)\<close> (line 449). The expression has no \<^verbatim>\<open>g\<close> flag:
  the match is the leftmost one, and at a start position the greedy \<^verbatim>\<open>(.*)\<close>, which with
  the \<^verbatim>\<open>s\<close> flag matches any character, first takes everything and backs off one
  character at a time until the closing fence follows. \<open>greedy_capture k rest\<close> tries the
  groups of length \<open>k\<close> down to 0; the result is the group.
\<close>

definition fence_open :: string where
  "fence_open = ''```json\<newline>''"

definition fence_close :: string where
  "fence_close = ''\<newline>```''"

fun greedy_capture :: "nat \<Rightarrow> string \<Rightarrow> string option" where
  "greedy_capture 0 rest = (if prefix fence_close rest then Some [] else None)"
| "greedy_capture (Suc k) rest =
     (if prefix fence_close (drop (Suc k) rest) then Some (take (Suc k) rest)
      else greedy_capture k rest)"

definition match_here :: "string \<Rightarrow> string option" where
  "match_here s =
     (if prefix fence_open s
      then (let rest = drop (length fence_open) s in greedy_capture (length rest) rest)
      else None)"

fun jsonMatch :: "string \<Rightarrow> string option" where
  "jsonMatch [] = match_here []"
| "jsonMatch (c # cs) =
     (case match_here (c # cs) of
        Some captured \<Rightarrow> Some captured
      | None \<Rightarrow> jsonMatch cs)"

text \<open>\<^verbatim>\<open>jsonMatch ? JSON.parse(jsonMatch[1]) : {}\<close> (line 450).\<close>

definition jsonResult :: "string \<Rightarrow> error + json" where
  "jsonResult finalResult =
     (case jsonMatch finalResult of
        Some captured \<Rightarrow> JSON_parse captured
      | None \<Rightarrow> Inr (JObject []))"

text \<open>
  \<^verbatim>\<open>processWithAI\<close> (lines 228-366) passes the prompt to the agent and returns the text it
  streams; its \<^verbatim>\<open>catch\<close> rethrows.
\<close>

definition processWithAI :: "world \<Rightarrow> nat \<Rightarrow> string \<Rightarrow> error + string" where
  "processWithAI w n prompt = generate w n prompt"

text \<open>\<^verbatim>\<open>Array.prototype.indexOf\<close>: the first index of the value, or -1.\<close>

fun indexOf :: "'a list \<Rightarrow> 'a \<Rightarrow> int" where
  "indexOf [] x = -1"
| "indexOf (y # ys) x =
     (if y = x then 0 else (let i = indexOf ys x in if i < 0 then -1 else i + 1))"

text \<open>
  The loop of \<^verbatim>\<open>analyzeStocks\<close> (lines 444-462) over the symbols still to come, with the
  trace and \<^verbatim>\<open>finalResults\<close> so far. Each agent call is the next of the run: as many
  calls were made before it as records were pushed. An error of the agent call or of
  \<^verbatim>\<open>JSON.parse\<close> leaves the loop and the function.
\<close>

fun for_stocks ::
  "world \<Rightarrow> string list \<Rightarrow> string list \<Rightarrow> event list \<Rightarrow> json list \<Rightarrow>
   event list \<times> (error + json list)" where
  "for_stocks w stocks [] trace finalResults = (trace, Inr finalResults)"
| "for_stocks w stocks (stock # rest) trace finalResults =
     (case processWithAI w (length finalResults) stock of
        Inl e \<Rightarrow> (trace @ [AgentCall stock], Inl e)
      | Inr finalResult \<Rightarrow>
          (case jsonResult finalResult of
             Inl e \<Rightarrow> (trace @ [AgentCall stock], Inl e)
           | Inr parsed \<Rightarrow>
               for_stocks w stocks rest
                 (trace @ [AgentCall stock] @
                    (if indexOf stocks stock < int (length stocks) - 1 then [Pause 2000] else []))
                 (finalResults @ [parsed])))"

record run_result =
  message :: string
  results :: "json list"
  timestamp :: string

definition analyzeStocks :: "world \<Rightarrow> string list \<Rightarrow> event list \<times> (error + run_result)" where
  "analyzeStocks w stocks =
     (case for_stocks w stocks stocks [] [] of
        (trace, Inl e) \<Rightarrow> (trace, Inl e)
      | (trace, Inr finalResults) \<Rightarrow>
          (case sendEmail w trace finalResults of
             (sent, Inl e) \<Rightarrow> (trace @ sent, Inl e)
           | (sent, Inr u) \<Rightarrow>
               (trace @ sent,
                Inr \<lparr> message = ''Stock analysis completed successfully'',
                      results = finalResults,
                      timestamp = getCurrentISTTime w (trace @ sent) \<rparr>)))"

section \<open>The route handlers\<close>

datatype response_body =
    ErrorBody string "error option"
  | RunBody run_result
  | CronBody string string "string list" nat

record response =
  status :: nat
  body :: response_body

text \<open>
  A handler returns the trace of the run and the response. The result is \<open>None\<close> where
  the run leaves the model: a value with a code unit above 255, or an element of the
  \<^verbatim>\<open>stocks\<close> array that is not a string (the handler passes the array on unchecked, and
  what the agent call makes of such a prompt is not modelled).
\<close>

definition defaultStocks :: "string list" where
  "defaultStocks = [''ITBEES'', ''RELIANCE'', ''TCS'', ''HDFC'', ''INFY'']"

text \<open>
  \<^verbatim>\<open>GET\<close> (cron route, lines 4-42). \<^verbatim>\<open>request.headers.get\<close> gives \<^verbatim>\<open>null\<close> for an absent
  header; the template literal \<^verbatim>\<open>`Bearer ${vercelCronSecret}`\<close> writes an unset variable as
  \<^verbatim>\<open>undefined\<close>.
\<close>

definition GET :: "world \<Rightarrow> string option \<Rightarrow> (event list \<times> response) option" where
  "GET w authHeader =
     (let vercelCronSecret = env w ''CRON_SECRET''
      in if authHeader \<noteq> Some (''Bearer '' @ template_text vercelCronSecret)
         then Some ([], \<lparr> status = 401, body = ErrorBody ''Unauthorized'' None \<rparr>)
         else
           (case analyzeStocks w defaultStocks of
              (trace, Inl OutsideModel) \<Rightarrow> None
            | (trace, Inl e) \<Rightarrow>
                Some (trace, \<lparr> status = 500, body = ErrorBody ''Cron job failed'' (Some e) \<rparr>)
            | (trace, Inr analysisResult) \<Rightarrow>
                Some (trace,
                  \<lparr> status = 200,
                    body = CronBody ''Cron job executed successfully'' (iso_time w trace)
                             defaultStocks (length (results analysisResult)) \<rparr>)))"

fun string_elements :: "json list \<Rightarrow> string list option" where
  "string_elements [] = Some []"
| "string_elements (JString s # vs) = map_option ((#) s) (string_elements vs)"
| "string_elements (v # vs) = None"

definition isArray :: "json option \<Rightarrow> bool" where
  "isArray v = (case v of Some (JArray xs) \<Rightarrow> True | _ \<Rightarrow> False)"

definition internal_error :: "error \<Rightarrow> response" where
  "internal_error e = \<lparr> status = 500, body = ErrorBody ''Internal server error'' (Some e) \<rparr>"

text \<open>
  \<^verbatim>\<open>POST\<close> (analyze route, lines 4-38), given the text of the request body.
  \<^verbatim>\<open>request.json()\<close> is \<^verbatim>\<open>JSON.parse\<close> of that text; \<^verbatim>\<open>const { stocks } = body\<close> reads the
  property, and throws a \<^verbatim>\<open>TypeError\<close> on \<^verbatim>\<open>null\<close>. Everything after the credential check
  is inside one \<^verbatim>\<open>try\<close>, whose \<^verbatim>\<open>catch\<close> answers 500.
\<close>

definition POST :: "world \<Rightarrow> string \<Rightarrow> (event list \<times> response) option" where
  "POST w request_text =
     (if env_missing w ''AI_GATEWAY_API_KEY''
      then Some ([], \<lparr> status = 500,
                       body = ErrorBody ''AI_GATEWAY_API_KEY environment variable is required''
                                None \<rparr>)
      else
        (case JSON_parse request_text of
           Inl OutsideModel \<Rightarrow> None
         | Inl e \<Rightarrow> Some ([], internal_error e)
         | Inr parsed \<Rightarrow>
             (case get_field parsed ''stocks'' of
                Inl e \<Rightarrow> Some ([], internal_error e)
              | Inr stocks \<Rightarrow>
                  if (case stocks of None \<Rightarrow> True | Some v \<Rightarrow> \<not> truthy w v) \<or> \<not> isArray stocks
                  then Some ([], \<lparr> status = 400,
                                   body = ErrorBody ''stocks array is required'' None \<rparr>)
                  else
                    (case stocks of
                       Some (JArray elems) \<Rightarrow>
                         (case string_elements elems of
                            None \<Rightarrow> None
                          | Some symbols \<Rightarrow>
                              (case analyzeStocks w symbols of
                                 (trace, Inl OutsideModel) \<Rightarrow> None
                               | (trace, Inl e) \<Rightarrow> Some (trace, internal_error e)
                               | (trace, Inr result) \<Rightarrow>
                                   Some (trace, \<lparr> status = 200, body = RunBody result \<rparr>)))
                     | _ \<Rightarrow> None))))"

section \<open>Predicates of the statements and proofs\<close>

text \<open>
  \<open>no_pair opn cls s\<close>: no \<open>opn\<close> in \<open>s\<close> has a \<open>cls\<close> after it. \<open>ws_normal s\<close>: every
  whitespace character of \<open>s\<close> is a space and no two are adjacent.
\<close>

fun no_pair :: "char \<Rightarrow> char \<Rightarrow> string \<Rightarrow> bool" where
  "no_pair opn cls [] = True"
| "no_pair opn cls (c # cs) = ((c = opn \<longrightarrow> cls \<notin> set cs) \<and> no_pair opn cls cs)"

fun ws_normal :: "string \<Rightarrow> bool" where
  "ws_normal [] = True"
| "ws_normal (c # cs) =
     ((is_whitespace c \<longrightarrow>
         c = CHR '' '' \<and> (case cs of [] \<Rightarrow> True | d # ds \<Rightarrow> \<not> is_whitespace d))
      \<and> ws_normal cs)"

text \<open>
  Two items conflict when they have the same url or the same extracted domain; the item
  at position \<open>j\<close> is first seen when no item before it conflicts with it.
\<close>

definition conflicts :: "'a url_item_scheme \<Rightarrow> 'a url_item_scheme \<Rightarrow> bool" where
  "conflicts a b = (url a = url b \<or> extractDomain (url a) = extractDomain (url b))"

definition first_seen :: "'a url_item_scheme list \<Rightarrow> nat \<Rightarrow> bool" where
  "first_seen items j = (\<forall>i<j. \<not> conflicts (items ! i) (items ! j))"

fun is_agent_call :: "event \<Rightarrow> bool" where
  "is_agent_call (AgentCall p) = True"
| "is_agent_call e = False"

fun is_pause :: "event \<Rightarrow> bool" where
  "is_pause (Pause n) = True"
| "is_pause e = False"

fun is_mail_event :: "event \<Rightarrow> bool" where
  "is_mail_event (CreateTransport u p) = True"
| "is_mail_event (SendMail m) = True"
| "is_mail_event e = False"

text \<open>The events of one round of the loop that completes, and of a run of such rounds.\<close>

definition symbol_events :: "string list \<Rightarrow> string \<Rightarrow> event list" where
  "symbol_events stocks stock =
     AgentCall stock #
       (if indexOf stocks stock < int (length stocks) - 1 then [Pause 2000] else [])"

definition loop_events :: "string list \<Rightarrow> string list \<Rightarrow> event list" where
  "loop_events stocks xs = concat (map (symbol_events stocks) xs)"

section \<open>Concrete worlds and inputs\<close>

text \<open>
  \<open>quiet_world\<close>: no variable of the environment is set, the agent answers in prose with
  no fenced block, and every search finds nothing.
\<close>

definition quiet_world :: world where
  "quiet_world =
     \<lparr> env = Map.empty,
       generate = (\<lambda>n prompt. Inr ''No recommendation today.''),
       deliver = (\<lambda>m. Inr ''message-1''),
       ist_time = (\<lambda>trace. ''1 January 2025 at 09:00:00 am''),
       iso_time = (\<lambda>trace. ''2025-01-01T03:30:00.000Z''),
       number_text = (\<lambda>numeral. numeral),
       number_is_zero = (\<lambda>numeral. numeral = ''0''),
       search = (\<lambda>n q opts. Inr []) \<rparr>"

text \<open>An answer of the agent with one fenced block, and one with two.\<close>

definition answer_with_block :: "string \<Rightarrow> string" where
  "answer_with_block name =
     ''Here is the analysis.\<newline>```json\<newline>{'' @ [CHR 0x22] @ ''STOCK NAME'' @
     [CHR 0x22] @ '':'' @ [CHR 0x22] @ name @ [CHR 0x22] @ ''}\<newline>```\<newline>Done.''"

definition answer_with_two_blocks :: string where
  "answer_with_two_blocks =
     ''```json\<newline>{'' @ [CHR 0x22] @ ''STOCK NAME'' @ [CHR 0x22] @ '':'' @ [CHR 0x22] @
     ''TCS'' @ [CHR 0x22] @ ''}\<newline>```\<newline>The same for the sector:\<newline>'' @
     ''```json\<newline>{'' @ [CHR 0x22] @ ''SECTOR'' @ [CHR 0x22] @ '':'' @ [CHR 0x22] @
     ''IT'' @ [CHR 0x22] @ ''}\<newline>```''"

definition answer_malformed :: string where
  "answer_malformed = ''```json\<newline>{STOCK NAME: TCS}\<newline>```''"

text \<open>
  \<open>report_world\<close>: the mail credentials are set, the agent answers with one block naming
  the symbol, and the transport accepts the message. In \<open>mail_down_world\<close> the transport
  rejects it. In \<open>broken_second_world\<close> the second answer of the agent has a block that is
  not JSON. In \<open>keyed_world\<close> the gateway key is set and nothing else.
\<close>

definition report_world :: world where
  "report_world =
     quiet_world
       \<lparr> env := [''GMAIL_USER'' \<mapsto> ''desk@example.com'', ''GMAIL_APP_PASSWORD'' \<mapsto> ''secret''],
         generate := (\<lambda>n prompt. Inr (answer_with_block prompt)) \<rparr>"

definition mail_down_world :: world where
  "mail_down_world = report_world \<lparr> deliver := (\<lambda>m. Inl (External ''connection refused'')) \<rparr>"

definition broken_second_world :: world where
  "broken_second_world =
     quiet_world
       \<lparr> generate := (\<lambda>n prompt. if n = 1 then Inr answer_malformed
                                  else Inr (answer_with_block prompt)) \<rparr>"

definition keyed_world :: world where
  "keyed_world = quiet_world \<lparr> env := [''AI_GATEWAY_API_KEY'' \<mapsto> ''key''] \<rparr>"

text \<open>\<open>gateway_down_world\<close>: the gateway key is set and every agent call is rejected.\<close>

definition gateway_down_world :: world where
  "gateway_down_world =
     keyed_world \<lparr> generate := (\<lambda>n prompt. Inl (External ''gateway timeout'')) \<rparr>"

text \<open>
  \<open>echo_world\<close>: every search finds the same two pages, whatever the query.
\<close>

definition page_one :: raw_result where
  "page_one =
     \<lparr> raw_url = ''https://news.example.com/tcs-results'',
       raw_title = Some ''TCS results [live] (updated)'',
       raw_text = Some ''Quarterly numbers.'',
       raw_publishedDate = Some ''2025-01-01'',
       raw_author = None \<rparr>"

definition page_two :: raw_result where
  "page_two =
     \<lparr> raw_url = ''https://news.example.com/tcs-outlook'',
       raw_title = Some ''TCS outlook'',
       raw_text = None,
       raw_publishedDate = None,
       raw_author = Some ''Desk'' \<rparr>"

definition echo_world :: world where
  "echo_world = quiet_world \<lparr> search := (\<lambda>n q opts. Inr [page_one, page_two]) \<rparr>"

definition four_items :: "url_item list" where
  "four_items =
     [\<lparr> url = ''https://a.example.com/1'' \<rparr>,
      \<lparr> url = ''https://a.example.com/2'' \<rparr>,
      \<lparr> url = ''http://b.example.org'' \<rparr>,
      \<lparr> url = ''https://a.example.com/1'' \<rparr>]"

section \<open>Title cleaning is idempotent on single-line titles\<close>

lemma lazy_to_None: "cls \<notin> set cs \<Longrightarrow> lazy_to cls cs = None"
  by (induction cs) auto

lemma lazy_to_found:
  "cls \<in> set cs \<Longrightarrow> \<forall>c \<in> set cs. \<not> is_line_terminator c \<Longrightarrow> lazy_to cls cs \<noteq> None"
  by (induction cs) auto

lemma lazy_to_suffix: "lazy_to cls cs = Some rest \<Longrightarrow> suffix rest cs"
  by (induction cs) (auto split: if_splits simp: suffix_Cons)

lemma subseq_set_subset: "subseq ys xs \<Longrightarrow> set ys \<subseteq> set xs"
  by (induction rule: list_emb.induct) auto

lemma replace_segments_subseq: "subseq (replace_segments opn cls s) s"
proof (induction opn cls s rule: replace_segments.induct)
  case (1 opn cls)
  show ?case by simp
next
  case (2 opn cls c cs)
  show ?case
  proof (cases "c = opn")
    case False
    with 2 show ?thesis by simp
  next
    case True
    show ?thesis
    proof (cases "lazy_to cls cs")
      case None
      with True 2 show ?thesis by simp
    next
      case (Some rest)
      with True 2 have "subseq (replace_segments opn cls rest) rest" by simp
      moreover have "subseq rest (c # cs)"
        using lazy_to_suffix [OF Some] suffix_imp_subseq by auto
      ultimately show ?thesis using True Some by (auto intro: subseq_order.trans)
    qed
  qed
qed

lemma no_pair_subseq: "subseq ys xs \<Longrightarrow> no_pair opn cls xs \<Longrightarrow> no_pair opn cls ys"
proof (induction rule: list_emb.induct)
  case (list_emb_Nil ys)
  then show ?case by simp
next
  case (list_emb_Cons xs ys y)
  then show ?case by simp
next
  case (list_emb_Cons2 x y xs ys)
  then show ?case using subseq_set_subset [of xs ys] by auto
qed

lemma replace_segments_fixed: "no_pair opn cls s \<Longrightarrow> replace_segments opn cls s = s"
  by (induction s) (auto simp: lazy_to_None)

lemma replace_segments_no_pair:
  "\<forall>c \<in> set s. \<not> is_line_terminator c \<Longrightarrow> no_pair opn cls (replace_segments opn cls s)"
proof (induction opn cls s rule: replace_segments.induct)
  case (1 opn cls)
  show ?case by simp
next
  case (2 opn cls c cs)
  show ?case
  proof (cases "c = opn")
    case False
    with 2 show ?thesis by simp
  next
    case True
    show ?thesis
    proof (cases "lazy_to cls cs")
      case None
      have "cls \<notin> set cs"
        using None lazy_to_found [of cls cs] "2.prems" by auto
      then have "cls \<notin> set (replace_segments opn cls cs)"
        using subseq_set_subset [OF replace_segments_subseq [of opn cls cs]] by auto
      with True None 2 show ?thesis by simp
    next
      case (Some rest)
      have "set rest \<subseteq> set cs"
        using lazy_to_suffix [OF Some] by (auto simp: suffix_def)
      with True Some 2 show ?thesis by auto
    qed
  qed
qed

lemma collapse_whitespace_set:
  "set (collapse_whitespace s) \<subseteq> insert (CHR '' '') (set s)"
proof (induction s rule: collapse_whitespace.induct)
  case 1
  show ?case by simp
next
  case (2 c cs)
  have "set (dropWhile is_whitespace cs) \<subseteq> set cs"
    by (simp add: set_dropWhileD subsetI)
  with 2 show ?case by auto
qed

lemma no_pair_suffix: "suffix ys xs \<Longrightarrow> no_pair opn cls xs \<Longrightarrow> no_pair opn cls ys"
  using no_pair_subseq suffix_imp_subseq by blast

lemma collapse_whitespace_no_pair:
  "no_pair opn cls s \<Longrightarrow> opn \<noteq> CHR '' '' \<Longrightarrow> cls \<noteq> CHR '' '' \<Longrightarrow>
   \<not> is_whitespace opn \<Longrightarrow> no_pair opn cls (collapse_whitespace s)"
proof (induction s rule: collapse_whitespace.induct)
  case 1
  show ?case by simp
next
  case (2 c cs)
  show ?case
  proof (cases "is_whitespace c")
    case True
    have "no_pair opn cls (dropWhile is_whitespace cs)"
      using "2.prems"(1) no_pair_suffix [OF suffix_dropWhile, of opn cls cs is_whitespace] by simp
    with True 2 show ?thesis by simp
  next
    case False
    have "cls \<notin> set cs \<Longrightarrow> cls \<notin> set (collapse_whitespace cs)"
      using collapse_whitespace_set [of cs] "2.prems"(3) by auto
    with False 2 show ?thesis by auto
  qed
qed

lemma trim_subseq: "subseq (trim s) s"
proof -
  let ?t = "dropWhile is_whitespace s"
  have "rev ?t = takeWhile is_whitespace (rev ?t) @ dropWhile is_whitespace (rev ?t)"
    by simp
  then have "?t = rev (dropWhile is_whitespace (rev ?t)) @ rev (takeWhile is_whitespace (rev ?t))"
    by (metis rev_append rev_rev_ident)
  then have "prefix (trim s) ?t"
    unfolding trim_def prefix_def by blast
  then have "subseq (trim s) ?t" by (rule prefix_imp_subseq)
  moreover have "subseq ?t s" by (simp add: suffix_imp_subseq suffix_dropWhile)
  ultimately show ?thesis by (rule subseq_order.trans)
qed

lemma collapse_whitespace_normal: "ws_normal (collapse_whitespace s)"
proof (induction s rule: collapse_whitespace.induct)
  case 1
  show ?case by simp
next
  case (2 c cs)
  show ?case
  proof (cases "is_whitespace c")
    case True
    let ?d = "dropWhile is_whitespace cs"
    have "case collapse_whitespace ?d of [] \<Rightarrow> True | d # ds \<Rightarrow> \<not> is_whitespace d"
    proof (cases ?d)
      case Nil
      show ?thesis unfolding Nil by simp
    next
      case (Cons y ys)
      then have "\<not> is_whitespace y" by (metis hd_dropWhile list.distinct(1) list.sel(1))
      with Cons show ?thesis by simp
    qed
    with True 2 show ?thesis by simp
  next
    case False
    with 2 show ?thesis by simp
  qed
qed

lemma collapse_whitespace_fixed: "ws_normal s \<Longrightarrow> collapse_whitespace s = s"
proof (induction s rule: collapse_whitespace.induct)
  case 1
  show ?case by simp
next
  case (2 c cs)
  show ?case
  proof (cases "is_whitespace c")
    case True
    with "2.prems" have d: "dropWhile is_whitespace cs = cs"
      by (cases cs) auto
    with True 2 show ?thesis by simp
  next
    case False
    with 2 show ?thesis by simp
  qed
qed

lemma ws_normal_append: "ws_normal (xs @ ys) \<Longrightarrow> ws_normal xs"
proof (induction xs)
  case Nil
  show ?case by simp
next
  case (Cons x xs)
  then show ?case by (cases xs) (auto split: list.splits)
qed

lemma ws_normal_suffix: "ws_normal (xs @ ys) \<Longrightarrow> ws_normal ys"
  by (induction xs) auto

lemma trim_normal: "ws_normal s \<Longrightarrow> ws_normal (trim s)"
proof -
  assume n: "ws_normal s"
  let ?t = "dropWhile is_whitespace s"
  have "s = takeWhile is_whitespace s @ ?t" by simp
  with n have t: "ws_normal ?t" by (metis ws_normal_suffix)
  have "rev ?t = takeWhile is_whitespace (rev ?t) @ dropWhile is_whitespace (rev ?t)"
    by simp
  then have "?t = trim s @ rev (takeWhile is_whitespace (rev ?t))"
    unfolding trim_def by (metis rev_append rev_rev_ident)
  with t show ?thesis by (metis ws_normal_append)
qed

lemma trim_fixed: "trim (trim s) = trim s"
proof -
  let ?t = "dropWhile is_whitespace s"
  let ?u = "dropWhile is_whitespace (rev ?t)"
  have u: "trim s = rev ?u" by (simp add: trim_def)
  have "dropWhile is_whitespace (rev ?u) = rev ?u"
  proof (cases ?t)
    case Nil
    show ?thesis unfolding Nil by simp
  next
    case (Cons y ys)
    then have y: "\<not> is_whitespace y" by (metis hd_dropWhile list.distinct(1) list.sel(1))
    have "?u = dropWhile is_whitespace (rev ys @ [y])" using Cons by simp
    then obtain zs where "?u = zs @ [y]"
      using y by (auto simp: dropWhile_append split: if_splits)
    then have "rev ?u = y # rev zs" by simp
    with y show ?thesis by simp
  qed
  then show ?thesis
    unfolding trim_def by simp
qed

text \<open>
  C7 (as amended): on every title with no line terminator, cleaning is idempotent:
  cleaning the cleaned title gives the cleaned title again.
\<close>

theorem cleanTitle_idempotent_single_line:
  assumes "\<forall>c \<in> set s. \<not> is_line_terminator c"
  shows "cleanTitle (cleanTitle s) = cleanTitle s"
proof -
  let ?s1 = "replace_segments (CHR ''['') (CHR '']'') s"
  let ?s2 = "replace_segments (CHR ''('') (CHR '')'') ?s1"
  let ?s3 = "collapse_whitespace ?s2"
  let ?r = "trim ?s3"
  have r: "cleanTitle s = ?r" by (simp add: cleanTitle_def)
  have s1: "\<forall>c \<in> set ?s1. \<not> is_line_terminator c"
    using assms subseq_set_subset [OF replace_segments_subseq [of "CHR ''[''" "CHR '']''" s]]
    by auto
  have b1: "no_pair (CHR ''['') (CHR '']'') ?s1"
    using assms by (rule replace_segments_no_pair)
  have b2: "no_pair (CHR ''['') (CHR '']'') ?s2"
    using replace_segments_subseq b1 by (rule no_pair_subseq)
  have p2: "no_pair (CHR ''('') (CHR '')'') ?s2"
    using s1 by (rule replace_segments_no_pair)
  have b3: "no_pair (CHR ''['') (CHR '']'') ?s3"
    using b2 by (rule collapse_whitespace_no_pair) (simp_all add: is_whitespace_def)
  have p3: "no_pair (CHR ''('') (CHR '')'') ?s3"
    using p2 by (rule collapse_whitespace_no_pair) (simp_all add: is_whitespace_def)
  have b4: "no_pair (CHR ''['') (CHR '']'') ?r"
    using trim_subseq b3 by (rule no_pair_subseq)
  have p4: "no_pair (CHR ''('') (CHR '')'') ?r"
    using trim_subseq p3 by (rule no_pair_subseq)
  have n4: "ws_normal ?r"
    using collapse_whitespace_normal by (rule trim_normal)
  have "cleanTitle ?r =
          trim (collapse_whitespace (replace_segments (CHR ''('') (CHR '')'')
            (replace_segments (CHR ''['') (CHR '']'') ?r)))"
    by (simp add: cleanTitle_def)
  also have "\<dots> = trim ?r"
    using b4 p4 n4 by (simp add: replace_segments_fixed collapse_whitespace_fixed)
  also have "\<dots> = ?r" by (rule trim_fixed)
  finally show ?thesis using r by simp
qed

theorem cleanTitle_idempotent_witness:
  "cleanTitle ''  TCS results [live] (updated)   Q3 '' = ''TCS results Q3'' \<and>
   cleanTitle (cleanTitle ''  TCS results [live] (updated)   Q3 '') =
     cleanTitle ''  TCS results [live] (updated)   Q3 ''"
proof -
  have "\<forall>c \<in> set ''  TCS results [live] (updated)   Q3 ''. \<not> is_line_terminator c"
    by (simp add: is_line_terminator_def)
  from cleanTitle_idempotent_single_line [OF this]
  show ?thesis
    by (simp add: cleanTitle_def trim_def is_whitespace_def is_line_terminator_def)
qed

text \<open>
  C7 as stated fails on a bracketed segment that spans a line: the first cleaning keeps
  it, since \<^verbatim>\<open>.\<close> does not match the line feed, and joins the lines; the second removes
  it.
\<close>

theorem cleanTitle_not_idempotent_counterexample:
  "cleanTitle ''[a\<newline>b]'' = ''[a b]'' \<and> cleanTitle (cleanTitle ''[a\<newline>b]'') = []"
  by (simp add: cleanTitle_def trim_def is_whitespace_def is_line_terminator_def)

section \<open>Deduplication keeps the first-seen items\<close>

lemma dedup_filter_subseq: "subseq (dedup_filter D U xs) xs"
  by (induction xs arbitrary: D U) (auto simp: Let_def)

lemma dedup_filter_urls:
  "distinct (map url (dedup_filter D U xs)) \<and> set (map url (dedup_filter D U xs)) \<inter> U = {}"
proof (induction xs arbitrary: D U)
  case Nil
  show ?case by simp
next
  case (Cons x xs)
  show ?case
    using Cons [of D U] Cons [of "insert (extractDomain (url x)) D" "insert (url x) U"]
    by (auto simp: Let_def)
qed

lemma dedup_filter_domains:
  "distinct (map (\<lambda>i. extractDomain (url i)) (dedup_filter D U xs)) \<and>
   set (map (\<lambda>i. extractDomain (url i)) (dedup_filter D U xs)) \<inter> D = {}"
proof (induction xs arbitrary: D U)
  case Nil
  show ?case by simp
next
  case (Cons x xs)
  show ?case
    using Cons [of D U] Cons [of "insert (extractDomain (url x)) D" "insert (url x) U"]
    by (auto simp: Let_def)
qed

lemma dedup_filter_snoc:
  "\<forall>u \<in> U. extractDomain u \<in> D \<Longrightarrow>
   dedup_filter D U (xs @ [x]) =
     dedup_filter D U xs @
       (if url x \<in> U \<or> extractDomain (url x) \<in> D \<or> (\<exists>y \<in> set xs. conflicts y x)
        then [] else [x])"
proof (induction xs arbitrary: D U)
  case Nil
  then show ?case by (auto simp: Let_def)
next
  case (Cons a as)
  show ?case
  proof (cases "url a \<notin> U \<and> extractDomain (url a) \<notin> D")
    case True
    have "\<forall>u \<in> insert (url a) U. extractDomain u \<in> insert (extractDomain (url a)) D"
      using Cons.prems by auto
    from Cons.IH [OF this] True show ?thesis
      by (auto simp: Let_def conflicts_def)
  next
    case False
    then have "extractDomain (url a) \<in> D" using Cons.prems by auto
    with Cons.IH [OF Cons.prems] False show ?thesis
      by (auto simp: Let_def conflicts_def)
  qed
qed

lemma deduplicate_snoc:
  "deduplicateByDomainAndUrl (xs @ [x]) =
     deduplicateByDomainAndUrl xs @ (if \<exists>y \<in> set xs. conflicts y x then [] else [x])"
  unfolding deduplicateByDomainAndUrl_def using dedup_filter_snoc [of "{}" "{}" xs x] by simp

lemma deduplicate_positions:
  "deduplicateByDomainAndUrl items =
     map ((!) items) (filter (first_seen items) [0..<length items])"
proof (induction items rule: rev_induct)
  case Nil
  show ?case by (simp add: deduplicateByDomainAndUrl_def)
next
  case (snoc x xs)
  have same: "first_seen (xs @ [x]) j = first_seen xs j" if "j < length xs" for j
    using that by (simp add: first_seen_def nth_append)
  have last: "first_seen (xs @ [x]) (length xs) = (\<not> (\<exists>y \<in> set xs. conflicts y x))"
    by (fastforce simp: first_seen_def nth_append in_set_conv_nth)
  have "filter (first_seen (xs @ [x])) [0..<length xs] = filter (first_seen xs) [0..<length xs]"
    by (rule filter_cong) (simp_all add: same)
  moreover have "map ((!) (xs @ [x])) (filter (first_seen xs) [0..<length xs]) =
                 map ((!) xs) (filter (first_seen xs) [0..<length xs])"
    by (rule map_cong) (simp_all add: nth_append)
  ultimately show ?case
    using snoc last by (simp add: deduplicate_snoc)
qed

text \<open>
  C6: the result of \<^verbatim>\<open>deduplicateByDomainAndUrl\<close> is a subsequence of the input, no two
  of its items have the same url, no two have the same extracted domain, and it holds
  exactly the items that are first seen: the item at a position is retained if and only
  if no item at an earlier position has its url or its domain.
\<close>

theorem deduplicate_first_seen_wins:
  "subseq (deduplicateByDomainAndUrl items) items \<and>
   distinct (map url (deduplicateByDomainAndUrl items)) \<and>
   distinct (map (\<lambda>item. extractDomain (url item)) (deduplicateByDomainAndUrl items)) \<and>
   deduplicateByDomainAndUrl items =
     map ((!) items)
       (filter (\<lambda>j. \<forall>i<j. url (items ! i) \<noteq> url (items ! j) \<and>
                            extractDomain (url (items ! i)) \<noteq> extractDomain (url (items ! j)))
          [0..<length items])"
proof -
  have "first_seen items =
          (\<lambda>j. \<forall>i<j. url (items ! i) \<noteq> url (items ! j) \<and>
                       extractDomain (url (items ! i)) \<noteq> extractDomain (url (items ! j)))"
    by (auto simp: first_seen_def conflicts_def fun_eq_iff)
  then show ?thesis
    using deduplicate_positions [of items] dedup_filter_subseq [of "{}" "{}" items]
      dedup_filter_urls [of "{}" "{}" items] dedup_filter_domains [of "{}" "{}" items]
    by (simp add: deduplicateByDomainAndUrl_def)
qed

theorem deduplicate_first_seen_wins_witness:
  "deduplicateByDomainAndUrl four_items = [four_items ! 0, four_items ! 2]"
proof -
  have "filter (\<lambda>j. \<forall>i<j. url (four_items ! i) \<noteq> url (four_items ! j) \<and>
                            extractDomain (url (four_items ! i)) \<noteq>
                              extractDomain (url (four_items ! j)))
          [0..<length four_items] = [0, 2]"
    by (simp add: four_items_def upt_rec eval_nat_numeral All_less_Suc extractDomain_def
        urlPattern_def match_host_def is_url_delimiter_def upper_ascii_def)
  with deduplicate_first_seen_wins [of four_items] show ?thesis by simp
qed

section \<open>Deduplication in the web search is per query\<close>

lemma deduplicate_distinct:
  "distinct (map url (deduplicateByDomainAndUrl items)) \<and>
   distinct (map (\<lambda>item. extractDomain (url item)) (deduplicateByDomainAndUrl items))"
  using dedup_filter_urls [of "{}" "{}" items] dedup_filter_domains [of "{}" "{}" items]
  by (simp add: deduplicateByDomainAndUrl_def)

lemma search_one_distinct:
  "distinct (map url (query_results (search_one w mx tps inc exc index q))) \<and>
   distinct (map (\<lambda>item. extractDomain (url item))
     (query_results (search_one w mx tps inc exc index q)))"
  using deduplicate_distinct
  by (auto simp: search_one_def Let_def split: sum.splits)

text \<open>
  C5 (as amended): in what \<^verbatim>\<open>exaWebSearch\<close> returns, the items retained for one query
  never share a url or an extracted domain.
\<close>

theorem exaWebSearch_dedup_per_query:
  assumes "entry \<in> set (exaWebSearch w queries maxResults topics include_domains exclude_domains)"
  shows "distinct (map url (query_results entry)) \<and>
         distinct (map (\<lambda>item. extractDomain (url item)) (query_results entry))"
  using assms search_one_distinct by (auto simp: exaWebSearch_def)

theorem exaWebSearch_dedup_per_query_witness:
  "map url (query_results
     (exaWebSearch echo_world [''TCS news'', ''TCS outlook''] [5, 5] [News, Finance] [] [] ! 0)) =
     [''https://news.example.com/tcs-results''] \<and>
   distinct (map url (query_results
     (exaWebSearch echo_world [''TCS news'', ''TCS outlook''] [5, 5] [News, Finance] [] [] ! 0)))"
proof -
  let ?out = "exaWebSearch echo_world [''TCS news'', ''TCS outlook''] [5, 5] [News, Finance] [] []"
  have "length ?out = 2" by (simp add: exaWebSearch_def)
  then have "?out ! 0 \<in> set ?out" by (simp del: exaWebSearch_def)
  from exaWebSearch_dedup_per_query [OF this]
  have d: "distinct (map url (query_results (?out ! 0)))" by simp
  have "map url (query_results (?out ! 0)) = [''https://news.example.com/tcs-results'']"
    by code_simp
  with d show ?thesis by simp
qed

text \<open>
  C5 as stated fails: the deduplication runs inside the callback of each query, so two
  queries of one call that find the same page both retain it.
\<close>

theorem exaWebSearch_shared_url_counterexample:
  "map (\<lambda>entry. map url (query_results entry))
     (exaWebSearch echo_world [''TCS news'', ''TCS outlook''] [5, 5] [News, Finance] [] []) =
   [[''https://news.example.com/tcs-results''], [''https://news.example.com/tcs-results'']]"
  by code_simp

section \<open>The loop of the orchestrator\<close>

lemma for_stocks_success:
  "length texts = length xs \<Longrightarrow> length recs = length xs \<Longrightarrow>
   \<forall>i<length xs. generate w (length done + i) (xs ! i) = Inr (texts ! i) \<and>
                   jsonResult (texts ! i) = Inr (recs ! i) \<Longrightarrow>
   for_stocks w stocks xs trace done = (trace @ loop_events stocks xs, Inr (done @ recs))"
proof (induction xs arbitrary: texts recs trace "done")
  case Nil
  then show ?case by (simp add: loop_events_def)
next
  case (Cons x xs)
  from Cons.prems obtain t ts where texts: "texts = t # ts"
    by (cases texts) auto
  from Cons.prems obtain r rs where recs: "recs = r # rs"
    by (cases recs) auto
  have head: "generate w (length done) x = Inr t" "jsonResult t = Inr r"
    using Cons.prems(3) texts recs by fastforce+
  have tail: "\<forall>i<length xs. generate w (length (done @ [r]) + i) (xs ! i) = Inr (ts ! i) \<and>
                             jsonResult (ts ! i) = Inr (rs ! i)"
  proof (intro allI impI)
    fix i assume "i < length xs"
    then have "Suc i < length (x # xs)" by simp
    with Cons.prems(3)
    have "generate w (length done + Suc i) ((x # xs) ! Suc i) = Inr (texts ! Suc i) \<and>
          jsonResult (texts ! Suc i) = Inr (recs ! Suc i)" by blast
    then show "generate w (length (done @ [r]) + i) (xs ! i) = Inr (ts ! i) \<and>
               jsonResult (ts ! i) = Inr (rs ! i)"
      using texts recs by simp
  qed
  have lens: "length ts = length xs" "length rs = length xs"
    using Cons.prems texts recs by auto
  show ?case
    using Cons.IH [OF lens tail, of "trace @ symbol_events stocks x"] head texts recs
    by (simp add: processWithAI_def loop_events_def symbol_events_def)
qed

lemma for_stocks_append:
  "for_stocks w stocks (xs @ ys) trace done =
     (case for_stocks w stocks xs trace done of
        (trace', Inl e) \<Rightarrow> (trace', Inl e)
      | (trace', Inr done') \<Rightarrow> for_stocks w stocks ys trace' done')"
  by (induction xs arbitrary: trace "done") (auto split: sum.splits)

lemma agent_calls_of_loop: "filter is_agent_call (loop_events stocks xs) = map AgentCall xs"
  by (induction xs) (auto simp: loop_events_def symbol_events_def)

lemma no_mail_in_loop: "filter is_mail_event (loop_events stocks xs) = []"
  by (induction xs) (auto simp: loop_events_def symbol_events_def)

lemma for_stocks_no_mail:
  "filter is_mail_event (fst (for_stocks w stocks xs trace done)) = filter is_mail_event trace"
  by (induction xs arbitrary: trace "done") (auto split: sum.splits)

lemma jsonResult_cases:
  "jsonResult answer = Inr r \<Longrightarrow>
   (case jsonMatch answer of None \<Rightarrow> r = JObject [] | Some captured \<Rightarrow> JSON_parse captured = Inr r)"
  by (auto simp: jsonResult_def split: option.splits)

text \<open>
  C1 (as amended): when every agent call returns, every matched block parses and the
  email step that follows the loop does not raise, \<^verbatim>\<open>analyzeStocks\<close> returns a result
  whose \<^verbatim>\<open>results\<close> hold one record per symbol, in the order of the symbols, each the value
  parsed from the block matched in the answer for that symbol, or the empty object when
  nothing matched.
\<close>

theorem analyzeStocks_one_record_per_symbol:
  assumes "length texts = length stocks" and "length recs = length stocks"
    and "\<forall>i<length stocks. generate w i (stocks ! i) = Inr (texts ! i)"
    and "\<forall>i<length stocks. jsonResult (texts ! i) = Inr (recs ! i)"
    and "snd (sendEmail w (fst (for_stocks w stocks stocks [] [])) recs) = Inr ()"
  shows "(\<exists>r. snd (analyzeStocks w stocks) = Inr r \<and> results r = recs) \<and>
         (\<forall>i<length stocks.
            case jsonMatch (texts ! i) of
              None \<Rightarrow> recs ! i = JObject []
            | Some captured \<Rightarrow> JSON_parse captured = Inr (recs ! i))"
proof -
  have "\<forall>i<length stocks. generate w (length ([] :: json list) + i) (stocks ! i) = Inr (texts ! i) \<and>
                          jsonResult (texts ! i) = Inr (recs ! i)"
    using assms(3,4) by simp
  from for_stocks_success [OF assms(1,2) this, of stocks "[]"]
  have loop: "for_stocks w stocks stocks [] [] = (loop_events stocks stocks, Inr recs)"
    by simp
  obtain sent where "sendEmail w (loop_events stocks stocks) recs = (sent, Inr ())"
    using assms(5) loop by (cases "sendEmail w (loop_events stocks stocks) recs") auto
  with loop have "\<exists>r. snd (analyzeStocks w stocks) = Inr r \<and> results r = recs"
    by (simp add: analyzeStocks_def)
  moreover have "\<forall>i<length stocks.
            case jsonMatch (texts ! i) of
              None \<Rightarrow> recs ! i = JObject []
            | Some captured \<Rightarrow> JSON_parse captured = Inr (recs ! i)"
    using assms(4) jsonResult_cases by blast
  ultimately show ?thesis by blast
qed

lemma answer_with_block_TCS:
  "jsonResult (answer_with_block ''TCS'') = Inr (JObject [(''STOCK NAME'', JString ''TCS'')])"
  by code_simp

lemma answer_with_block_INFY:
  "jsonResult (answer_with_block ''INFY'') = Inr (JObject [(''STOCK NAME'', JString ''INFY'')])"
  by code_simp

theorem analyzeStocks_one_record_per_symbol_witness:
  "\<exists>r. snd (analyzeStocks report_world [''TCS'', ''INFY'']) = Inr r \<and>
       results r = [JObject [(''STOCK NAME'', JString ''TCS'')],
                    JObject [(''STOCK NAME'', JString ''INFY'')]]"
proof -
  let ?stocks = "[''TCS'', ''INFY'']"
  let ?texts = "[answer_with_block ''TCS'', answer_with_block ''INFY'']"
  let ?recs = "[JObject [(''STOCK NAME'', JString ''TCS'')],
                JObject [(''STOCK NAME'', JString ''INFY'')]]"
  have a: "\<forall>i<length ?stocks. generate report_world i (?stocks ! i) = Inr (?texts ! i)"
    by (simp add: report_world_def quiet_world_def less_Suc_eq)
  have b: "\<forall>i<length ?stocks. jsonResult (?texts ! i) = Inr (?recs ! i)"
    using answer_with_block_TCS answer_with_block_INFY by (simp add: less_Suc_eq)
  have c: "snd (sendEmail report_world (fst (for_stocks report_world ?stocks ?stocks [] [])) ?recs)
             = Inr ()"
    by code_simp
  from analyzeStocks_one_record_per_symbol [of ?texts ?stocks ?recs report_world, OF _ _ a b c]
  show ?thesis by simp
qed

text \<open>
  C1 as stated fails: the agent call returns and its block parses, yet a transport that
  rejects the message makes \<^verbatim>\<open>sendEmail\<close> rethrow, and \<^verbatim>\<open>analyzeStocks\<close> returns no result.
\<close>

theorem analyzeStocks_mail_failure_counterexample:
  "generate mail_down_world 0 ''TCS'' = Inr (answer_with_block ''TCS'') \<and>
   jsonResult (answer_with_block ''TCS'') = Inr (JObject [(''STOCK NAME'', JString ''TCS'')]) \<and>
   snd (analyzeStocks mail_down_world [''TCS'']) = Inl (External ''connection refused'')"
proof -
  have "snd (analyzeStocks mail_down_world [''TCS'']) = Inl (External ''connection refused'')"
    by code_simp
  then show ?thesis
    using answer_with_block_TCS
    by (simp add: mail_down_world_def report_world_def quiet_world_def)
qed

text \<open>
  C3: when the answer for a symbol has a matched block that \<^verbatim>\<open>JSON.parse\<close> rejects (the
  symbols before it having been processed), \<^verbatim>\<open>analyzeStocks\<close> raises that
  \<^verbatim>\<open>SyntaxError\<close> and returns no result; the agent was called for the symbols up to that one
  and for no later one, and no mail transport was created and no message sent.
\<close>

theorem malformed_block_aborts_batch:
  assumes "stocks = before @ stock # after"
    and "length texts = length before" and "length recs = length before"
    and "\<forall>i<length before. generate w i (before ! i) = Inr (texts ! i) \<and>
                            jsonResult (texts ! i) = Inr (recs ! i)"
    and "generate w (length before) stock = Inr answer"
    and "jsonMatch answer = Some captured"
    and "JSON_parse captured = Inl SyntaxError"
  shows "snd (analyzeStocks w stocks) = Inl SyntaxError \<and>
         filter is_agent_call (fst (analyzeStocks w stocks)) = map AgentCall (before @ [stock]) \<and>
         filter is_mail_event (fst (analyzeStocks w stocks)) = []"
proof -
  have "\<forall>i<length before. generate w (length ([] :: json list) + i) (before ! i) = Inr (texts ! i) \<and>
                          jsonResult (texts ! i) = Inr (recs ! i)"
    using assms(4) by simp
  from for_stocks_success [OF assms(2,3) this, of stocks "[]"]
  have first: "for_stocks w stocks before [] [] = (loop_events stocks before, Inr recs)"
    by simp
  have "jsonResult answer = Inl SyntaxError"
    using assms(6,7) by (simp add: jsonResult_def)
  then have "for_stocks w stocks (stock # after) (loop_events stocks before) recs =
               (loop_events stocks before @ [AgentCall stock], Inl SyntaxError)"
    using assms(3,5) by (simp add: processWithAI_def)
  with first have "for_stocks w stocks stocks [] [] =
               (loop_events stocks before @ [AgentCall stock], Inl SyntaxError)"
    unfolding assms(1) by (simp add: for_stocks_append)
  then have "analyzeStocks w stocks =
               (loop_events stocks before @ [AgentCall stock], Inl SyntaxError)"
    by (simp add: analyzeStocks_def)
  then show ?thesis
    by (simp add: agent_calls_of_loop no_mail_in_loop)
qed

theorem malformed_block_aborts_batch_witness:
  "snd (analyzeStocks broken_second_world [''TCS'', ''INFY'', ''HDFC'']) = Inl SyntaxError \<and>
   filter is_agent_call (fst (analyzeStocks broken_second_world [''TCS'', ''INFY'', ''HDFC''])) =
     [AgentCall ''TCS'', AgentCall ''INFY''] \<and>
   filter is_mail_event (fst (analyzeStocks broken_second_world [''TCS'', ''INFY'', ''HDFC''])) = []"
proof -
  have a: "[''TCS'', ''INFY'', ''HDFC''] = [''TCS''] @ ''INFY'' # [''HDFC'']" by simp
  have b: "\<forall>i<length [''TCS''].
             generate broken_second_world i ([''TCS''] ! i) = Inr ([answer_with_block ''TCS''] ! i) \<and>
             jsonResult ([answer_with_block ''TCS''] ! i) =
               Inr ([JObject [(''STOCK NAME'', JString ''TCS'')]] ! i)"
    using answer_with_block_TCS by (simp add: broken_second_world_def quiet_world_def)
  have c: "generate broken_second_world (length [''TCS'']) ''INFY'' = Inr answer_malformed"
    by (simp add: broken_second_world_def quiet_world_def)
  have d: "jsonMatch answer_malformed = Some ''{STOCK NAME: TCS}''"
    by code_simp
  have e: "JSON_parse ''{STOCK NAME: TCS}'' = Inl SyntaxError"
    by code_simp
  from malformed_block_aborts_batch [OF a _ _ b c d e]
  show ?thesis by simp
qed

section \<open>The pause between symbols\<close>

lemma indexOf_first: "x \<notin> set pre \<Longrightarrow> indexOf (pre @ x # post) x = int (length pre)"
  by (induction pre) (auto simp: Let_def)

lemma pauses_of_suffix:
  "distinct (pre @ xs) \<Longrightarrow>
   length (filter is_pause (loop_events (pre @ xs) xs)) = length xs - 1"
proof (induction xs arbitrary: pre)
  case Nil
  show ?case by (simp add: loop_events_def)
next
  case (Cons x xs)
  have ix: "indexOf (pre @ x # xs) x = int (length pre)"
    using Cons.prems by (simp add: indexOf_first)
  have "distinct ((pre @ [x]) @ xs)" using Cons.prems by simp
  from Cons.IH [OF this]
  have rest: "length (filter is_pause (loop_events (pre @ x # xs) xs)) = length xs - 1"
    by simp
  have "loop_events (pre @ x # xs) (x # xs) =
          symbol_events (pre @ x # xs) x @ loop_events (pre @ x # xs) xs"
    by (simp add: loop_events_def)
  then show ?case
    using ix rest by (cases xs) (simp_all add: symbol_events_def)
qed

text \<open>
  On a list of distinct symbols the loop pauses once after every symbol but the last.
\<close>

lemma pauses_distinct_symbols:
  "distinct stocks \<Longrightarrow>
   length (filter is_pause (loop_events stocks stocks)) = length stocks - 1"
  using pauses_of_suffix [of "[]" stocks] by simp

text \<open>
  C4 at a list of three symbols whose last repeats the first: \<^verbatim>\<open>stocks.indexOf(stock)\<close>
  is 0 for the last symbol, so the test \<^verbatim>\<open>< stocks.length - 1\<close> holds and the run pauses
  three times, the third time after the last symbol.
\<close>

theorem pause_after_repeated_last_symbol:
  "fst (analyzeStocks quiet_world [''TCS'', ''INFY'', ''TCS'']) =
     [AgentCall ''TCS'', Pause 2000, AgentCall ''INFY'', Pause 2000, AgentCall ''TCS'', Pause 2000]"
  by code_simp

section \<open>The extraction of the JSON block\<close>

lemma greedy_capture_None:
  "greedy_capture k rest = None \<longleftrightarrow> (\<forall>j\<le>k. \<not> prefix fence_close (drop j rest))"
proof (induction k)
  case 0
  show ?case by simp
next
  case (Suc k)
  show ?case using Suc by (auto simp: le_Suc_eq)
qed

lemma match_here_None:
  "match_here s = None \<longleftrightarrow> \<not> (\<exists>b c. s = fence_open @ b @ fence_close @ c)"
proof
  assume none: "match_here s = None"
  show "\<not> (\<exists>b c. s = fence_open @ b @ fence_close @ c)"
  proof
    assume "\<exists>b c. s = fence_open @ b @ fence_close @ c"
    then obtain b c where s: "s = fence_open @ b @ fence_close @ c" by blast
    let ?rest = "drop (length fence_open) s"
    have rest: "?rest = b @ fence_close @ c" using s by simp
    have "prefix fence_open s" using s by simp
    with none have "greedy_capture (length ?rest) ?rest = None"
      by (simp add: match_here_def Let_def)
    then have "\<forall>j\<le>length ?rest. \<not> prefix fence_close (drop j ?rest)"
      by (simp only: greedy_capture_None)
    moreover have "length b \<le> length ?rest" unfolding rest by simp
    ultimately have "\<not> prefix fence_close (drop (length b) ?rest)" by blast
    moreover have "drop (length b) ?rest = fence_close @ c" unfolding rest by simp
    ultimately show False by simp
  qed
next
  assume no: "\<not> (\<exists>b c. s = fence_open @ b @ fence_close @ c)"
  show "match_here s = None"
  proof (cases "prefix fence_open s")
    case False
    then show ?thesis by (simp add: match_here_def)
  next
    case True
    let ?rest = "drop (length fence_open) s"
    have s: "s = fence_open @ ?rest"
      using True by (auto simp: prefix_def)
    have "\<not> prefix fence_close (drop j ?rest)" for j
    proof
      assume "prefix fence_close (drop j ?rest)"
      then obtain c where "drop j ?rest = fence_close @ c" by (auto simp: prefix_def)
      then have "?rest = take j ?rest @ fence_close @ c"
        by (metis append_take_drop_id)
      with s have "s = fence_open @ take j ?rest @ fence_close @ c" by simp
      with no show False by blast
    qed
    then have "greedy_capture (length ?rest) ?rest = None"
      unfolding greedy_capture_None by simp
    with True show ?thesis by (simp add: match_here_def Let_def)
  qed
qed

lemma jsonMatch_None:
  "jsonMatch answer = None \<longleftrightarrow>
   \<not> (\<exists>a b c. answer = a @ fence_open @ b @ fence_close @ c)"
proof (induction answer)
  case Nil
  show ?case by (simp add: match_here_None)
next
  case (Cons x xs)
  have "(\<exists>a b c. x # xs = a @ fence_open @ b @ fence_close @ c) \<longleftrightarrow>
        (\<exists>b c. x # xs = fence_open @ b @ fence_close @ c) \<or>
        (\<exists>a b c. xs = a @ fence_open @ b @ fence_close @ c)"
  proof
    assume "\<exists>a b c. x # xs = a @ fence_open @ b @ fence_close @ c"
    then obtain a b c where e: "x # xs = a @ fence_open @ b @ fence_close @ c" by blast
    show "(\<exists>b c. x # xs = fence_open @ b @ fence_close @ c) \<or>
          (\<exists>a b c. xs = a @ fence_open @ b @ fence_close @ c)"
    proof (cases a)
      case Nil
      with e show ?thesis by auto
    next
      case (Cons y ys)
      with e have "xs = ys @ fence_open @ b @ fence_close @ c" by simp
      then show ?thesis by blast
    qed
  next
    assume "(\<exists>b c. x # xs = fence_open @ b @ fence_close @ c) \<or>
            (\<exists>a b c. xs = a @ fence_open @ b @ fence_close @ c)"
    then show "\<exists>a b c. x # xs = a @ fence_open @ b @ fence_close @ c"
    proof
      assume "\<exists>b c. x # xs = fence_open @ b @ fence_close @ c"
      then obtain b c where "x # xs = [] @ fence_open @ b @ fence_close @ c" by auto
      then show ?thesis by blast
    next
      assume "\<exists>a b c. xs = a @ fence_open @ b @ fence_close @ c"
      then obtain a b c where "x # xs = (x # a) @ fence_open @ b @ fence_close @ c" by auto
      then show ?thesis by blast
    qed
  qed
  with Cons match_here_None [of "x # xs"] show ?case
    by (auto split: option.splits)
qed

text \<open>
  A text with no opening fence followed somewhere by a closing fence gives the empty
  object.
\<close>

lemma jsonResult_without_block:
  "\<not> (\<exists>a b c. answer = a @ fence_open @ b @ fence_close @ c) \<Longrightarrow>
   jsonResult answer = Inr (JObject [])"
  using jsonMatch_None [of answer] by (simp add: jsonResult_def)

lemma greedy_capture_last:
  "j \<le> k \<Longrightarrow> prefix fence_close (drop j rest) \<Longrightarrow>
   (\<forall>i. j < i \<and> i \<le> k \<longrightarrow> \<not> prefix fence_close (drop i rest)) \<Longrightarrow>
   greedy_capture k rest = Some (take j rest)"
proof (induction k)
  case 0
  then show ?case by simp
next
  case (Suc k)
  show ?case
  proof (cases "j = Suc k")
    case True
    with Suc.prems show ?thesis by simp
  next
    case False
    with Suc.prems have "j \<le> k" by simp
    moreover have "\<not> prefix fence_close (drop (Suc k) rest)"
      using Suc.prems False by auto
    moreover have "\<forall>i. j < i \<and> i \<le> k \<longrightarrow> \<not> prefix fence_close (drop i rest)"
      using Suc.prems by auto
    ultimately show ?thesis using Suc.IH Suc.prems(2) by simp
  qed
qed

lemma no_fence_after_close:
  assumes "\<not> (\<exists>u v. post = u @ fence_close @ v)" and "0 < i"
  shows "\<not> prefix fence_close (drop i (fence_close @ post))"
proof
  assume p: "prefix fence_close (drop i (fence_close @ post))"
  show False
  proof (cases "i < 4")
    case True
    with assms(2) have "i = 1 \<or> i = 2 \<or> i = 3" by auto
    with p show False by (auto simp: fence_close_def)
  next
    case False
    have "length fence_close = 4" by (simp add: fence_close_def)
    with False have "drop i (fence_close @ post) = drop (i - 4) post"
      by (simp del: drop_append add: drop_append [of i fence_close post])
    with p obtain v where "drop (i - 4) post = fence_close @ v"
      by (auto simp: prefix_def)
    then have "post = take (i - 4) post @ fence_close @ v"
      by (metis append_take_drop_id)
    with assms(1) show False by blast
  qed
qed

lemma match_here_single_block:
  assumes "\<not> (\<exists>u v. post = u @ fence_close @ v)"
  shows "match_here (fence_open @ block @ fence_close @ post) = Some block"
proof -
  let ?rest = "block @ fence_close @ post"
  have later: "\<forall>i. length block < i \<and> i \<le> length ?rest \<longrightarrow>
                 \<not> prefix fence_close (drop i ?rest)"
  proof (intro allI impI)
    fix i assume i: "length block < i \<and> i \<le> length ?rest"
    then have "drop i ?rest = drop (i - length block) (fence_close @ post)"
      using drop_append [of i block "fence_close @ post"] by simp
    moreover have "0 < i - length block" using i by simp
    ultimately show "\<not> prefix fence_close (drop i ?rest)"
      using no_fence_after_close [OF assms, of "i - length block"] by (simp del: drop_append)
  qed
  have "greedy_capture (length ?rest) ?rest = Some (take (length block) ?rest)"
    by (rule greedy_capture_last [OF _ _ later]) simp_all
  then show ?thesis by (simp add: match_here_def Let_def)
qed

lemma jsonMatch_skips_plain_text:
  "CHR 0x60 \<notin> set pre \<Longrightarrow> jsonMatch (pre @ s) = jsonMatch s"
proof (induction pre)
  case Nil
  show ?case by simp
next
  case (Cons x xs)
  then have "\<not> prefix fence_open (x # xs @ s)"
    by (auto simp: fence_open_def)
  then have "match_here (x # xs @ s) = None" by (simp add: match_here_def)
  with Cons show ?case by simp
qed

text \<open>
  An answer with exactly one fenced block, after text with no backquote and before text
  with no closing fence: the group is the block, and the record is what \<^verbatim>\<open>JSON.parse\<close>
  makes of it.
\<close>

lemma jsonResult_single_block:
  assumes "CHR 0x60 \<notin> set pre" and "\<not> (\<exists>u v. post = u @ fence_close @ v)"
  shows "jsonResult (pre @ fence_open @ block @ fence_close @ post) = JSON_parse block"
proof -
  have "jsonMatch (fence_open @ block @ fence_close @ post) = Some block"
    using match_here_single_block [OF assms(2), of block]
    by (cases "fence_open @ block @ fence_close @ post") (simp_all add: fence_open_def)
  then have "jsonMatch (pre @ fence_open @ block @ fence_close @ post) = Some block"
    using jsonMatch_skips_plain_text [OF assms(1)] by simp
  then show ?thesis by (simp add: jsonResult_def)
qed

text \<open>
  C2 at an answer with two fenced blocks: the greedy group runs from the first opening
  fence to the last closing fence, so what is parsed is not the first block, and
  \<^verbatim>\<open>JSON.parse\<close> rejects it.
\<close>

theorem two_blocks_are_not_parsed:
  "jsonMatch answer_with_two_blocks =
     Some (''{'' @ [CHR 0x22] @ ''STOCK NAME'' @ [CHR 0x22] @ '':'' @ [CHR 0x22] @ ''TCS'' @
           [CHR 0x22] @ ''}\<newline>```\<newline>The same for the sector:\<newline>```json\<newline>{'' @
           [CHR 0x22] @ ''SECTOR'' @ [CHR 0x22] @ '':'' @ [CHR 0x22] @ ''IT'' @ [CHR 0x22] @ ''}'') \<and>
   jsonResult answer_with_two_blocks = Inl SyntaxError"
  by code_simp

section \<open>The notifier without credentials\<close>

text \<open>
  C9: when either mail credential is unset, \<^verbatim>\<open>sendEmail\<close> returns without an error and
  without an event (no transport is created, nothing is sent), whatever the records; the
  run of \<^verbatim>\<open>analyzeStocks\<close> then ends as its loop ends, with the result when the loop
  completes, and has no mail event.
\<close>

theorem sendEmail_skipped_without_credentials:
  assumes "env w ''GMAIL_USER'' = None \<or> env w ''GMAIL_APP_PASSWORD'' = None"
  shows "sendEmail w trace rs = ([], Inr ()) \<and>
         analyzeStocks w stocks =
           (case for_stocks w stocks stocks [] [] of
              (tr, Inl e) \<Rightarrow> (tr, Inl e)
            | (tr, Inr finalResults) \<Rightarrow>
                (tr, Inr \<lparr> message = ''Stock analysis completed successfully'',
                           results = finalResults,
                           timestamp = getCurrentISTTime w tr \<rparr>)) \<and>
         filter is_mail_event (fst (analyzeStocks w stocks)) = []"
proof -
  have skip: "sendEmail w tr xs = ([], Inr ())" for tr xs
    using assms by (auto simp: sendEmail_def env_missing_def)
  have run: "analyzeStocks w stocks =
           (case for_stocks w stocks stocks [] [] of
              (tr, Inl e) \<Rightarrow> (tr, Inl e)
            | (tr, Inr finalResults) \<Rightarrow>
                (tr, Inr \<lparr> message = ''Stock analysis completed successfully'',
                           results = finalResults,
                           timestamp = getCurrentISTTime w tr \<rparr>))"
    by (simp add: analyzeStocks_def skip split: prod.splits sum.splits)
  have "fst (analyzeStocks w stocks) = fst (for_stocks w stocks stocks [] [])"
    unfolding run by (simp split: prod.splits sum.splits)
  then have "filter is_mail_event (fst (analyzeStocks w stocks)) = []"
    using for_stocks_no_mail [of w stocks stocks "[]" "[]"] by simp
  with skip run show ?thesis by blast
qed

theorem sendEmail_skipped_without_credentials_witness:
  "sendEmail quiet_world [] [JObject [], JNull] = ([], Inr ()) \<and>
   analyzeStocks quiet_world [''TCS'', ''INFY''] =
     ([AgentCall ''TCS'', Pause 2000, AgentCall ''INFY''],
      Inr \<lparr> message = ''Stock analysis completed successfully'',
            results = [JObject [], JObject []],
            timestamp = ''1 January 2025 at 09:00:00 am'' \<rparr>)"
proof -
  have "env quiet_world ''GMAIL_USER'' = None \<or> env quiet_world ''GMAIL_APP_PASSWORD'' = None"
    by (simp add: quiet_world_def)
  from sendEmail_skipped_without_credentials [OF this, of "[]" "[JObject [], JNull]" "[''TCS'', ''INFY'']"]
  have "sendEmail quiet_world [] [JObject [], JNull] = ([], Inr ())"
    and run: "analyzeStocks quiet_world [''TCS'', ''INFY''] =
           (case for_stocks quiet_world [''TCS'', ''INFY''] [''TCS'', ''INFY''] [] [] of
              (tr, Inl e) \<Rightarrow> (tr, Inl e)
            | (tr, Inr finalResults) \<Rightarrow>
                (tr, Inr \<lparr> message = ''Stock analysis completed successfully'',
                           results = finalResults,
                           timestamp = getCurrentISTTime quiet_world tr \<rparr>))"
    by blast+
  moreover have "for_stocks quiet_world [''TCS'', ''INFY''] [''TCS'', ''INFY''] [] [] =
      ([AgentCall ''TCS'', Pause 2000, AgentCall ''INFY''], Inr [JObject [], JObject []])"
    by code_simp
  moreover have "getCurrentISTTime quiet_world [AgentCall ''TCS'', Pause 2000, AgentCall ''INFY'']
      = ''1 January 2025 at 09:00:00 am''"
    by (simp add: getCurrentISTTime_def quiet_world_def)
  ultimately show ?thesis by simp
qed

section \<open>The cron route\<close>

lemma for_stocks_extends: "\<exists>more. fst (for_stocks w stocks xs trace done) = trace @ more"
proof (induction xs arbitrary: trace "done")
  case Nil
  show ?case by simp
next
  case (Cons x xs)
  show ?case
  proof (cases "processWithAI w (length done) x")
    case (Inl e)
    then show ?thesis by simp
  next
    case (Inr finalResult)
    show ?thesis
    proof (cases "jsonResult finalResult")
      case (Inl e)
      with Inr show ?thesis by simp
    next
      case (Inr parsed)
      let ?tr = "trace @ [AgentCall x] @
        (if indexOf stocks x < int (length stocks) - 1 then [Pause 2000] else [])"
      obtain more where "fst (for_stocks w stocks xs ?tr (done @ [parsed])) = ?tr @ more"
        using Cons [of ?tr "done @ [parsed]"] by blast
      with Inr \<open>processWithAI w (length done) x = Inr finalResult\<close> show ?thesis by simp
    qed
  qed
qed

lemma for_stocks_first_call:
  "\<exists>more. fst (for_stocks w stocks (x # xs) trace done) = trace @ AgentCall x # more"
proof (cases "processWithAI w (length done) x")
  case (Inl e)
  then show ?thesis by simp
next
  case (Inr finalResult)
  show ?thesis
  proof (cases "jsonResult finalResult")
    case (Inl e)
    with Inr show ?thesis by simp
  next
    case (Inr parsed)
    let ?tr = "trace @ [AgentCall x] @
      (if indexOf stocks x < int (length stocks) - 1 then [Pause 2000] else [])"
    obtain more where "fst (for_stocks w stocks xs ?tr (done @ [parsed])) = ?tr @ more"
      using for_stocks_extends [of w stocks xs ?tr "done @ [parsed]"] by blast
    with Inr \<open>processWithAI w (length done) x = Inr finalResult\<close> show ?thesis by simp
  qed
qed

lemma analyzeStocks_first_call:
  "\<exists>more. fst (analyzeStocks w (x # xs)) = AgentCall x # more"
proof -
  obtain more where m: "fst (for_stocks w (x # xs) (x # xs) [] []) = AgentCall x # more"
    using for_stocks_first_call [of w "x # xs" x xs "[]" "[]"] by auto
  then show ?thesis
    by (cases "for_stocks w (x # xs) (x # xs) [] []")
       (auto simp: analyzeStocks_def split: sum.splits prod.splits)
qed

text \<open>
  C10: when \<^verbatim>\<open>CRON_SECRET\<close> is unset, the handler compares the header with
  \<^verbatim>\<open>Bearer undefined\<close>. A request with exactly that header gets what the run of
  \<^verbatim>\<open>analyzeStocks\<close> over the default symbols gives (status 200, or 500 when the run raises),
  never status 401, and the run starts with the agent call for the first default symbol;
  a request with any other header, or none, gets status 401 and nothing runs.
\<close>

theorem cron_unset_secret_accepts_bearer_undefined:
  assumes "env w ''CRON_SECRET'' = None"
  shows "GET w (Some ''Bearer undefined'') =
           (case analyzeStocks w defaultStocks of
              (trace, Inl OutsideModel) \<Rightarrow> None
            | (trace, Inl e) \<Rightarrow>
                Some (trace, \<lparr> status = 500, body = ErrorBody ''Cron job failed'' (Some e) \<rparr>)
            | (trace, Inr analysisResult) \<Rightarrow>
                Some (trace,
                  \<lparr> status = 200,
                    body = CronBody ''Cron job executed successfully'' (iso_time w trace)
                             defaultStocks (length (results analysisResult)) \<rparr>)) \<and>
         (\<forall>trace r. GET w (Some ''Bearer undefined'') = Some (trace, r) \<longrightarrow>
            status r \<noteq> 401 \<and> (\<exists>more. trace = AgentCall ''ITBEES'' # more)) \<and>
         (\<forall>h. h \<noteq> Some ''Bearer undefined'' \<longrightarrow>
            GET w h = Some ([], \<lparr> status = 401, body = ErrorBody ''Unauthorized'' None \<rparr>))"
proof -
  let ?run = "analyzeStocks w defaultStocks"
  have run: "GET w (Some ''Bearer undefined'') =
           (case ?run of
              (trace, Inl OutsideModel) \<Rightarrow> None
            | (trace, Inl e) \<Rightarrow>
                Some (trace, \<lparr> status = 500, body = ErrorBody ''Cron job failed'' (Some e) \<rparr>)
            | (trace, Inr analysisResult) \<Rightarrow>
                Some (trace,
                  \<lparr> status = 200,
                    body = CronBody ''Cron job executed successfully'' (iso_time w trace)
                             defaultStocks (length (results analysisResult)) \<rparr>))"
    using assms by (simp add: GET_def template_text_def)
  obtain more where first: "fst ?run = AgentCall ''ITBEES'' # more"
    using analyzeStocks_first_call [of w "''ITBEES''" "[''RELIANCE'', ''TCS'', ''HDFC'', ''INFY'']"]
    by (auto simp: defaultStocks_def)
  have accepted: "\<forall>trace r. GET w (Some ''Bearer undefined'') = Some (trace, r) \<longrightarrow>
            status r \<noteq> 401 \<and> (\<exists>more. trace = AgentCall ''ITBEES'' # more)"
  proof (intro allI impI)
    fix trace r
    assume "GET w (Some ''Bearer undefined'') = Some (trace, r)"
    with run first show "status r \<noteq> 401 \<and> (\<exists>more. trace = AgentCall ''ITBEES'' # more)"
      by (cases ?run) (auto split: sum.splits error.splits)
  qed
  have rejected: "\<forall>h. h \<noteq> Some ''Bearer undefined'' \<longrightarrow>
            GET w h = Some ([], \<lparr> status = 401, body = ErrorBody ''Unauthorized'' None \<rparr>)"
    using assms by (simp add: GET_def template_text_def)
  from run accepted rejected show ?thesis by blast
qed

theorem cron_unset_secret_witness:
  "GET quiet_world (Some ''Bearer undefined'') =
     Some ([AgentCall ''ITBEES'', Pause 2000, AgentCall ''RELIANCE'', Pause 2000,
            AgentCall ''TCS'', Pause 2000, AgentCall ''HDFC'', Pause 2000, AgentCall ''INFY''],
           \<lparr> status = 200,
             body = CronBody ''Cron job executed successfully'' ''2025-01-01T03:30:00.000Z''
                      defaultStocks 5 \<rparr>) \<and>
   GET quiet_world (Some ''Bearer secret'') =
     Some ([], \<lparr> status = 401, body = ErrorBody ''Unauthorized'' None \<rparr>) \<and>
   GET quiet_world None =
     Some ([], \<lparr> status = 401, body = ErrorBody ''Unauthorized'' None \<rparr>)"
proof -
  have unset: "env quiet_world ''CRON_SECRET'' = None"
    by (simp add: quiet_world_def)
  have run: "analyzeStocks quiet_world defaultStocks =
     ([AgentCall ''ITBEES'', Pause 2000, AgentCall ''RELIANCE'', Pause 2000,
       AgentCall ''TCS'', Pause 2000, AgentCall ''HDFC'', Pause 2000, AgentCall ''INFY''],
      Inr \<lparr> message = ''Stock analysis completed successfully'',
            results = [JObject [], JObject [], JObject [], JObject [], JObject []],
            timestamp = ''1 January 2025 at 09:00:00 am'' \<rparr>)"
    by code_simp
  have iso: "iso_time quiet_world t = ''2025-01-01T03:30:00.000Z''" for t
    by (simp add: quiet_world_def)
  from cron_unset_secret_accepts_bearer_undefined [OF unset]
  show ?thesis by (simp add: run iso)
qed


section \<open>The analyze route\<close>

lemma lex_step_errors:
  "lex_step st acc c = Inl e \<Longrightarrow> e = SyntaxError \<or> e = OutsideModel"
  by (cases st)
     (auto simp: lex_step_def idle_step_def escape_step_def unicode_step_def Let_def
           split: if_splits option.splits)

lemma lex_errors: "lex st acc s = Inl e \<Longrightarrow> e = SyntaxError \<or> e = OutsideModel"
proof (induction s arbitrary: st acc)
  case Nil
  then show ?case
    by (cases st) (auto simp: lex_finish_def split: if_splits option.splits)
next
  case (Cons c cs)
  show ?case
  proof (cases "lex_step st acc c")
    case (Inl e')
    with Cons.prems have "e' = e" by simp
    with Inl lex_step_errors show ?thesis by blast
  next
    case (Inr next_state)
    with Cons show ?thesis by (cases next_state) auto
  qed
qed

lemma parse_tokens_errors: "parse_tokens st stack ts = Inl e \<Longrightarrow> e = SyntaxError"
proof (induction ts arbitrary: st stack)
  case Nil
  then show ?case by (cases st) auto
next
  case (Cons t ts)
  then show ?case by (cases "parse_step st stack t") auto
qed

lemma JSON_parse_errors: "JSON_parse s = Inl e \<Longrightarrow> e = SyntaxError \<or> e = OutsideModel"
  using lex_errors parse_tokens_errors
  by (auto simp: JSON_parse_def split: sum.splits)

lemma get_field_error: "get_field v key = Inl e \<Longrightarrow> v = JNull \<and> e = TypeError"
  by (cases v) (auto simp: get_field_def)

lemma POST_without_key:
  "env_missing w ''AI_GATEWAY_API_KEY'' \<Longrightarrow>
   POST w request_text =
     Some ([], \<lparr> status = 500,
                  body = ErrorBody ''AI_GATEWAY_API_KEY environment variable is required''
                           None \<rparr>)"
  by (simp add: POST_def)

lemma POST_not_json:
  "\<not> env_missing w ''AI_GATEWAY_API_KEY'' \<Longrightarrow> JSON_parse request_text = Inl SyntaxError \<Longrightarrow>
   POST w request_text =
     Some ([], \<lparr> status = 500,
                  body = ErrorBody ''Internal server error'' (Some SyntaxError) \<rparr>)"
  by (simp add: POST_def internal_error_def)

lemma POST_null:
  "\<not> env_missing w ''AI_GATEWAY_API_KEY'' \<Longrightarrow> JSON_parse request_text = Inr JNull \<Longrightarrow>
   POST w request_text =
     Some ([], \<lparr> status = 500,
                  body = ErrorBody ''Internal server error'' (Some TypeError) \<rparr>)"
  by (simp add: POST_def internal_error_def get_field_def)

lemma POST_no_array:
  "\<not> env_missing w ''AI_GATEWAY_API_KEY'' \<Longrightarrow> JSON_parse request_text = Inr parsed \<Longrightarrow>
   get_field parsed ''stocks'' = Inr stocks \<Longrightarrow> \<not> isArray stocks \<Longrightarrow>
   POST w request_text =
     Some ([], \<lparr> status = 400, body = ErrorBody ''stocks array is required'' None \<rparr>)"
  by (simp add: POST_def)

lemma POST_runs:
  "\<not> env_missing w ''AI_GATEWAY_API_KEY'' \<Longrightarrow> JSON_parse request_text = Inr parsed \<Longrightarrow>
   get_field parsed ''stocks'' = Inr (Some (JArray elems)) \<Longrightarrow>
   string_elements elems = Some symbols \<Longrightarrow>
   POST w request_text =
     (case analyzeStocks w symbols of
        (trace, Inl OutsideModel) \<Rightarrow> None
      | (trace, Inl e) \<Rightarrow> Some (trace, internal_error e)
      | (trace, Inr result) \<Rightarrow> Some (trace, \<lparr> status = 200, body = RunBody result \<rparr>))"
  by (simp add: POST_def isArray_def truthy_def)

lemma POST_run_fails:
  "\<not> env_missing w ''AI_GATEWAY_API_KEY'' \<Longrightarrow> JSON_parse request_text = Inr parsed \<Longrightarrow>
   get_field parsed ''stocks'' = Inr (Some (JArray elems)) \<Longrightarrow>
   string_elements elems = Some symbols \<Longrightarrow>
   analyzeStocks w symbols = (trace, Inl e) \<Longrightarrow> e \<noteq> OutsideModel \<Longrightarrow>
   POST w request_text =
     Some (trace, \<lparr> status = 500, body = ErrorBody ''Internal server error'' (Some e) \<rparr>)"
  by (cases e) (simp_all add: POST_runs internal_error_def)

lemma POST_run_returns:
  "\<not> env_missing w ''AI_GATEWAY_API_KEY'' \<Longrightarrow> JSON_parse request_text = Inr parsed \<Longrightarrow>
   get_field parsed ''stocks'' = Inr (Some (JArray elems)) \<Longrightarrow>
   string_elements elems = Some symbols \<Longrightarrow>
   analyzeStocks w symbols = (trace, Inr result) \<Longrightarrow>
   POST w request_text = Some (trace, \<lparr> status = 200, body = RunBody result \<rparr>)"
  by (simp add: POST_runs)

text \<open>
  The answers of the handler, by the way the request is treated: each answer of \<open>POST\<close>
  is one of the five below.
\<close>

lemma POST_answers:
  assumes "POST w request_text = Some (tr, r)"
  shows "(env_missing w ''AI_GATEWAY_API_KEY'' \<and> status r = 500) \<or>
         (\<not> env_missing w ''AI_GATEWAY_API_KEY'' \<and>
            JSON_parse request_text = Inl SyntaxError \<and> status r = 500) \<or>
         (\<not> env_missing w ''AI_GATEWAY_API_KEY'' \<and>
            JSON_parse request_text = Inr JNull \<and> status r = 500) \<or>
         (\<not> env_missing w ''AI_GATEWAY_API_KEY'' \<and>
            (\<exists>parsed stocks. JSON_parse request_text = Inr parsed \<and>
               get_field parsed ''stocks'' = Inr stocks \<and> \<not> isArray stocks) \<and>
            status r = 400) \<or>
         (\<not> env_missing w ''AI_GATEWAY_API_KEY'' \<and>
            (\<exists>parsed elems symbols.
               JSON_parse request_text = Inr parsed \<and>
               get_field parsed ''stocks'' = Inr (Some (JArray elems)) \<and>
               string_elements elems = Some symbols \<and>
               ((\<exists>e. analyzeStocks w symbols = (tr, Inl e) \<and> status r = 500) \<or>
                (\<exists>result. analyzeStocks w symbols = (tr, Inr result) \<and> status r = 200))))"
proof (cases "env_missing w ''AI_GATEWAY_API_KEY''")
  case True
  with assms POST_without_key [OF True, of request_text] show ?thesis by auto
next
  case key: False
  show ?thesis
  proof (cases "JSON_parse request_text")
    case (Inl e)
    show ?thesis
    proof (cases "e = OutsideModel")
      case True
      with key Inl assms show ?thesis by (simp add: POST_def)
    next
      case False
      with JSON_parse_errors [OF Inl] have e: "e = SyntaxError" by simp
      with key Inl assms POST_not_json [OF key, of request_text] show ?thesis by auto
    qed
  next
    case (Inr parsed)
    show ?thesis
    proof (cases "get_field parsed ''stocks''")
      case (Inl e)
      with get_field_error have "parsed = JNull" by blast
      with key Inr assms POST_null [OF key, of request_text] show ?thesis by auto
    next
      case stocks: (Inr stocks)
      show ?thesis
      proof (cases "isArray stocks")
        case False
        with key Inr stocks assms POST_no_array [OF key Inr stocks False] show ?thesis
          by auto
      next
        case True
        then obtain elems where elems: "stocks = Some (JArray elems)"
          by (auto simp: isArray_def split: option.splits json.splits)
        show ?thesis
        proof (cases "string_elements elems")
          case None
          with key Inr stocks elems assms show ?thesis
            by (simp add: POST_def isArray_def truthy_def)
        next
          case (Some symbols)
          note run = POST_runs [OF key Inr stocks [unfolded elems] Some]
          obtain tr' out where out: "analyzeStocks w symbols = (tr', out)"
            by (cases "analyzeStocks w symbols")
          show ?thesis
          proof (cases out)
            case (Inl e)
            with run out assms have "tr' = tr \<and> status r = 500"
              by (cases e) (auto simp: internal_error_def)
            with key Inr stocks elems Some out Inl show ?thesis by auto
          next
            case res: (Inr result)
            with run out assms have "tr' = tr \<and> status r = 200" by auto
            with key Inr stocks elems Some out res show ?thesis by auto
          qed
        qed
      qed
    qed
  qed
qed

text \<open>
  C8 (as amended). With the gateway key set, a body that is JSON other than \<^verbatim>\<open>null\<close> and
  whose \<^verbatim>\<open>stocks\<close> is absent or not an array gets status 400 with the message
  \<^verbatim>\<open>stocks array is required\<close>, and nothing else gets status 400. Status 500 is the answer
  to a request made with the key missing, to a body that is not JSON, to the body
  \<^verbatim>\<open>null\<close>, and to a run of \<^verbatim>\<open>analyzeStocks\<close> (over the strings of the \<^verbatim>\<open>stocks\<close> array) that
  raises, and to nothing else. A run that returns is answered with status 200 and its
  result.
\<close>

theorem POST_validation_statuses:
  "(\<not> env_missing w ''AI_GATEWAY_API_KEY'' \<and> JSON_parse request_text = Inr parsed \<and>
      get_field parsed ''stocks'' = Inr stocks \<and> \<not> isArray stocks \<longrightarrow>
      POST w request_text =
        Some ([], \<lparr> status = 400, body = ErrorBody ''stocks array is required'' None \<rparr>)) \<and>
   (\<not> env_missing w ''AI_GATEWAY_API_KEY'' \<and> JSON_parse request_text = Inl SyntaxError \<longrightarrow>
      POST w request_text =
        Some ([], \<lparr> status = 500,
                     body = ErrorBody ''Internal server error'' (Some SyntaxError) \<rparr>)) \<and>
   (\<not> env_missing w ''AI_GATEWAY_API_KEY'' \<and> JSON_parse request_text = Inr JNull \<longrightarrow>
      POST w request_text =
        Some ([], \<lparr> status = 500,
                     body = ErrorBody ''Internal server error'' (Some TypeError) \<rparr>)) \<and>
   (env_missing w ''AI_GATEWAY_API_KEY'' \<longrightarrow>
      POST w request_text =
        Some ([], \<lparr> status = 500,
                     body = ErrorBody ''AI_GATEWAY_API_KEY environment variable is required''
                              None \<rparr>)) \<and>
   (\<not> env_missing w ''AI_GATEWAY_API_KEY'' \<and> JSON_parse request_text = Inr body_value \<and>
      get_field body_value ''stocks'' = Inr (Some (JArray elems)) \<and>
      string_elements elems = Some symbols \<and>
      analyzeStocks w symbols = (trace, Inl e) \<and> e \<noteq> OutsideModel \<longrightarrow>
      POST w request_text =
        Some (trace, \<lparr> status = 500, body = ErrorBody ''Internal server error'' (Some e) \<rparr>)) \<and>
   (\<not> env_missing w ''AI_GATEWAY_API_KEY'' \<and> JSON_parse request_text = Inr body_value \<and>
      get_field body_value ''stocks'' = Inr (Some (JArray elems)) \<and>
      string_elements elems = Some symbols \<and>
      analyzeStocks w symbols = (trace, Inr result) \<longrightarrow>
      POST w request_text = Some (trace, \<lparr> status = 200, body = RunBody result \<rparr>)) \<and>
   (\<forall>tr r. POST w request_text = Some (tr, r) \<and> status r = 500 \<longrightarrow>
      env_missing w ''AI_GATEWAY_API_KEY'' \<or>
      JSON_parse request_text = Inl SyntaxError \<or>
      JSON_parse request_text = Inr JNull \<or>
      (\<exists>v xs syms err.
         JSON_parse request_text = Inr v \<and>
         get_field v ''stocks'' = Inr (Some (JArray xs)) \<and>
         string_elements xs = Some syms \<and>
         analyzeStocks w syms = (tr, Inl err))) \<and>
   (\<forall>tr r. POST w request_text = Some (tr, r) \<and> status r = 400 \<longrightarrow>
      \<not> env_missing w ''AI_GATEWAY_API_KEY'' \<and>
      (\<exists>v st. JSON_parse request_text = Inr v \<and> get_field v ''stocks'' = Inr st \<and>
               \<not> isArray st))"
proof -
  have only_500: "\<forall>tr r. POST w request_text = Some (tr, r) \<and> status r = 500 \<longrightarrow>
      env_missing w ''AI_GATEWAY_API_KEY'' \<or>
      JSON_parse request_text = Inl SyntaxError \<or>
      JSON_parse request_text = Inr JNull \<or>
      (\<exists>v xs syms err.
         JSON_parse request_text = Inr v \<and>
         get_field v ''stocks'' = Inr (Some (JArray xs)) \<and>
         string_elements xs = Some syms \<and>
         analyzeStocks w syms = (tr, Inl err))"
  proof (intro allI impI)
    fix tr r
    assume a: "POST w request_text = Some (tr, r) \<and> status r = 500"
    then have "POST w request_text = Some (tr, r)" and s: "status r = 500" by simp_all
    from POST_answers [OF this(1)] s
    show "env_missing w ''AI_GATEWAY_API_KEY'' \<or>
      JSON_parse request_text = Inl SyntaxError \<or>
      JSON_parse request_text = Inr JNull \<or>
      (\<exists>v xs syms err.
         JSON_parse request_text = Inr v \<and>
         get_field v ''stocks'' = Inr (Some (JArray xs)) \<and>
         string_elements xs = Some syms \<and>
         analyzeStocks w syms = (tr, Inl err))"
      by (elim disjE conjE exE) auto
  qed
  have only_400: "\<forall>tr r. POST w request_text = Some (tr, r) \<and> status r = 400 \<longrightarrow>
      \<not> env_missing w ''AI_GATEWAY_API_KEY'' \<and>
      (\<exists>v st. JSON_parse request_text = Inr v \<and> get_field v ''stocks'' = Inr st \<and>
               \<not> isArray st)"
  proof (intro allI impI)
    fix tr r
    assume a: "POST w request_text = Some (tr, r) \<and> status r = 400"
    then have "POST w request_text = Some (tr, r)" and s: "status r = 400" by simp_all
    from POST_answers [OF this(1)] s
    show "\<not> env_missing w ''AI_GATEWAY_API_KEY'' \<and>
      (\<exists>v st. JSON_parse request_text = Inr v \<and> get_field v ''stocks'' = Inr st \<and>
               \<not> isArray st)"
      by (elim disjE conjE exE) auto
  qed
  show ?thesis
    apply (intro conjI impI)
           apply (elim conjE, erule (3) POST_no_array)
          apply (elim conjE, erule (1) POST_not_json)
         apply (elim conjE, erule (1) POST_null)
        apply (erule POST_without_key)
       apply (elim conjE, erule (5) POST_run_fails)
      apply (elim conjE, erule (4) POST_run_returns)
     apply (rule only_500)
    apply (rule only_400)
    done
qed

theorem POST_validation_statuses_witness:
  \<open>POST keyed_world ''{"stocks":"TCS"}'' =
     Some ([], \<lparr> status = 400, body = ErrorBody ''stocks array is required'' None \<rparr>) \<and>
   POST keyed_world ''{"symbols":["TCS"]}'' =
     Some ([], \<lparr> status = 400, body = ErrorBody ''stocks array is required'' None \<rparr>) \<and>
   POST keyed_world ''{"stocks":["TCS"]'' =
     Some ([], \<lparr> status = 500,
                  body = ErrorBody ''Internal server error'' (Some SyntaxError) \<rparr>) \<and>
   POST keyed_world ''null'' =
     Some ([], \<lparr> status = 500,
                  body = ErrorBody ''Internal server error'' (Some TypeError) \<rparr>) \<and>
   POST quiet_world ''{"stocks":["TCS"]}'' =
     Some ([], \<lparr> status = 500,
                  body = ErrorBody ''AI_GATEWAY_API_KEY environment variable is required''
                           None \<rparr>) \<and>
   POST gateway_down_world ''{"stocks":["TCS"]}'' =
     Some ([AgentCall ''TCS''],
           \<lparr> status = 500,
             body = ErrorBody ''Internal server error'' (Some (External ''gateway timeout'')) \<rparr>) \<and>
   POST keyed_world ''{"stocks":["TCS"]}'' =
     Some ([AgentCall ''TCS''],
           \<lparr> status = 200,
             body = RunBody \<lparr> message = ''Stock analysis completed successfully'',
                              results = [JObject []],
                              timestamp = ''1 January 2025 at 09:00:00 am'' \<rparr> \<rparr>) \<and>
   (\<exists>v xs syms err.
      JSON_parse ''{"stocks":["TCS"]}'' = Inr v \<and>
      get_field v ''stocks'' = Inr (Some (JArray xs)) \<and>
      string_elements xs = Some syms \<and>
      analyzeStocks gateway_down_world syms = ([AgentCall ''TCS''], Inl err)) \<and>
   (\<exists>v st. JSON_parse ''{"stocks":"TCS"}'' = Inr v \<and> get_field v ''stocks'' = Inr st \<and>
            \<not> isArray st)\<close>
proof -
  have key: "\<not> env_missing keyed_world ''AI_GATEWAY_API_KEY''"
    by (simp add: keyed_world_def quiet_world_def env_missing_def)
  have key': "\<not> env_missing gateway_down_world ''AI_GATEWAY_API_KEY''"
    by (simp add: gateway_down_world_def keyed_world_def quiet_world_def env_missing_def)
  have nokey: "env_missing quiet_world ''AI_GATEWAY_API_KEY''"
    by (simp add: quiet_world_def env_missing_def)
  have p1: \<open>JSON_parse ''{"stocks":"TCS"}'' = Inr (JObject [(''stocks'', JString ''TCS'')])\<close>
    by code_simp
  have f1: "get_field (JObject [(''stocks'', JString ''TCS'')]) ''stocks'' =
              Inr (Some (JString ''TCS''))"
    by (simp add: get_field_def)
  have p2: \<open>JSON_parse ''{"symbols":["TCS"]}'' =
              Inr (JObject [(''symbols'', JArray [JString ''TCS''])])\<close>
    by code_simp
  have f2: "get_field (JObject [(''symbols'', JArray [JString ''TCS''])]) ''stocks'' = Inr None"
    by (simp add: get_field_def)
  have p3: \<open>JSON_parse ''{"stocks":["TCS"]'' = Inl SyntaxError\<close>
    by code_simp
  have p4: "JSON_parse ''null'' = Inr JNull"
    by code_simp
  have p5: \<open>JSON_parse ''{"stocks":["TCS"]}'' =
              Inr (JObject [(''stocks'', JArray [JString ''TCS''])])\<close>
    by code_simp
  have f5: "get_field (JObject [(''stocks'', JArray [JString ''TCS''])]) ''stocks'' =
              Inr (Some (JArray [JString ''TCS'']))"
    by (simp add: get_field_def)
  have s5: "string_elements [JString ''TCS''] = Some [''TCS'']"
    by simp
  have down: "analyzeStocks gateway_down_world [''TCS''] =
                ([AgentCall ''TCS''], Inl (External ''gateway timeout''))"
    by code_simp
  have up: "analyzeStocks keyed_world [''TCS''] =
              ([AgentCall ''TCS''],
               Inr \<lparr> message = ''Stock analysis completed successfully'',
                     results = [JObject []],
                     timestamp = ''1 January 2025 at 09:00:00 am'' \<rparr>)"
    by code_simp
  have a1: "\<not> isArray (Some (JString ''TCS''))" and a2: "\<not> isArray None"
    by (simp_all add: isArray_def)
  note T = POST_validation_statuses
  have c1: \<open>POST keyed_world ''{"stocks":"TCS"}'' =
     Some ([], \<lparr> status = 400, body = ErrorBody ''stocks array is required'' None \<rparr>)\<close>
    using T [of keyed_world _ "JObject [(''stocks'', JString ''TCS'')]"
            "Some (JString ''TCS'')", THEN conjunct1] key p1 f1 a1
    by simp
  have c2: \<open>POST keyed_world ''{"symbols":["TCS"]}'' =
     Some ([], \<lparr> status = 400, body = ErrorBody ''stocks array is required'' None \<rparr>)\<close>
    using T [of keyed_world _ "JObject [(''symbols'', JArray [JString ''TCS''])]" None,
            THEN conjunct1] key p2 f2 a2
    by simp
  have c3: \<open>POST keyed_world ''{"stocks":["TCS"]'' =
     Some ([], \<lparr> status = 500,
                  body = ErrorBody ''Internal server error'' (Some SyntaxError) \<rparr>)\<close>
    using T [of keyed_world _ JNull None, THEN conjunct2, THEN conjunct1] key p3
    by simp
  have c4: "POST keyed_world ''null'' =
     Some ([], \<lparr> status = 500,
                  body = ErrorBody ''Internal server error'' (Some TypeError) \<rparr>)"
    using T [of keyed_world _ JNull None, THEN conjunct2, THEN conjunct2, THEN conjunct1]
      key p4
    by simp
  have c5: \<open>POST quiet_world ''{"stocks":["TCS"]}'' =
     Some ([], \<lparr> status = 500,
                  body = ErrorBody ''AI_GATEWAY_API_KEY environment variable is required''
                           None \<rparr>)\<close>
    using T [of quiet_world _ JNull None,
            THEN conjunct2, THEN conjunct2, THEN conjunct2, THEN conjunct1] nokey
    by simp
  have c6: \<open>POST gateway_down_world ''{"stocks":["TCS"]}'' =
     Some ([AgentCall ''TCS''],
           \<lparr> status = 500,
             body = ErrorBody ''Internal server error'' (Some (External ''gateway timeout'')) \<rparr>)\<close>
    using T [of gateway_down_world _ JNull None
               "JObject [(''stocks'', JArray [JString ''TCS''])]" "[JString ''TCS'']" "[''TCS'']"
               "[AgentCall ''TCS'']" "External ''gateway timeout''",
            THEN conjunct2, THEN conjunct2, THEN conjunct2, THEN conjunct2, THEN conjunct1]
      key' p5 f5 s5 down
    by simp
  have c7: \<open>POST keyed_world ''{"stocks":["TCS"]}'' =
     Some ([AgentCall ''TCS''],
           \<lparr> status = 200,
             body = RunBody \<lparr> message = ''Stock analysis completed successfully'',
                              results = [JObject []],
                              timestamp = ''1 January 2025 at 09:00:00 am'' \<rparr> \<rparr>)\<close>
    using T [of keyed_world _ JNull None
               "JObject [(''stocks'', JArray [JString ''TCS''])]" "[JString ''TCS'']" "[''TCS'']"
               "[AgentCall ''TCS'']" _
               "\<lparr> message = ''Stock analysis completed successfully'',
                  results = [JObject []],
                  timestamp = ''1 January 2025 at 09:00:00 am'' \<rparr>",
            THEN conjunct2, THEN conjunct2, THEN conjunct2, THEN conjunct2, THEN conjunct2,
            THEN conjunct1]
      key p5 f5 s5 up
    by simp
  have c8: \<open>\<exists>v xs syms err.
      JSON_parse ''{"stocks":["TCS"]}'' = Inr v \<and>
      get_field v ''stocks'' = Inr (Some (JArray xs)) \<and>
      string_elements xs = Some syms \<and>
      analyzeStocks gateway_down_world syms = ([AgentCall ''TCS''], Inl err)\<close>
  proof -
    have \<open>env_missing gateway_down_world ''AI_GATEWAY_API_KEY'' \<or>
      JSON_parse ''{"stocks":["TCS"]}'' = Inl SyntaxError \<or>
      JSON_parse ''{"stocks":["TCS"]}'' = Inr JNull \<or>
      (\<exists>v xs syms err.
         JSON_parse ''{"stocks":["TCS"]}'' = Inr v \<and>
         get_field v ''stocks'' = Inr (Some (JArray xs)) \<and>
         string_elements xs = Some syms \<and>
         analyzeStocks gateway_down_world syms = ([AgentCall ''TCS''], Inl err))\<close>
      using T [of gateway_down_world _ JNull None JNull "[]" "[]" "[]" SyntaxError,
              THEN conjunct2, THEN conjunct2, THEN conjunct2, THEN conjunct2, THEN conjunct2,
              THEN conjunct2, THEN conjunct1, rule_format,
              of _ "[AgentCall ''TCS'']"
                 "\<lparr> status = 500,
                   body = ErrorBody ''Internal server error''
                            (Some (External ''gateway timeout'')) \<rparr>"]
        c6
      by simp
    with key' p5 show ?thesis by simp
  qed
  have c9: \<open>\<exists>v st. JSON_parse ''{"stocks":"TCS"}'' = Inr v \<and>
                    get_field v ''stocks'' = Inr st \<and> \<not> isArray st\<close>
    using T [of keyed_world _ JNull None JNull "[]" "[]" "[]" SyntaxError,
            THEN conjunct2, THEN conjunct2, THEN conjunct2, THEN conjunct2, THEN conjunct2,
            THEN conjunct2, THEN conjunct2, rule_format,
            of _ "[]" "\<lparr> status = 400, body = ErrorBody ''stocks array is required'' None \<rparr>"]
      c1
    by simp
  from c1 c2 c3 c4 c5 c6 c7 c8 c9 show ?thesis by (intro conjI)
qed

text \<open>
  C8 as stated fails on a body that is not JSON: \<^verbatim>\<open>request.json()\<close> rejects inside the
  \<^verbatim>\<open>try\<close>, and the \<^verbatim>\<open>catch\<close> answers 500 although the key is set.
\<close>

theorem POST_invalid_json_counterexample:
  "\<not> env_missing keyed_world ''AI_GATEWAY_API_KEY'' \<and>
   JSON_parse ''stocks: TCS, INFY'' = Inl SyntaxError \<and>
   POST keyed_world ''stocks: TCS, INFY'' =
     Some ([], \<lparr> status = 500,
                  body = ErrorBody ''Internal server error'' (Some SyntaxError) \<rparr>)"
  by code_simp

end
